theory Spec2Isabelle
  imports Complex_Main "HOL-Library.Log_Nat"
begin

section \<open>Python floats\<close>

text \<open>
  The trading bot of \<^verbatim>\<open>Integrated.py\<close> and \<^verbatim>\<open>Integrated_Version7.py\<close> computes
  its prices and latencies with Python floats, the binary64 numbers of IEEE 754.
  A float is represented here by the rational number it denotes, and every
  operation on floats rounds its exact result to the nearest number with a
  significand of 53 bits, a tie going to the even significand. The exponent is
  not bounded: overflow to infinity and the subnormal numbers, both far from any
  price or latency, are left out.
\<close>

text \<open>The integer nearest to \<open>t\<close>, the even one of two that are equally near.\<close>

definition round_half_even :: "rat \<Rightarrow> int" where
  "round_half_even t =
     (let n = \<lfloor>t\<rfloor>; r = t - of_int n
      in if r < 1 / 2 then n
         else if 1 / 2 < r then n + 1
         else if even n then n else n + 1)"

text \<open>The binary exponent of \<open>x \<noteq> 0\<close>: the \<open>e\<close> with \<open>2 powi e \<le> \<bar>x\<bar> < 2 powi (e + 1)\<close>.\<close>

definition exponent :: "rat \<Rightarrow> int" where
  "exponent x =
     (let (p, q) = quotient_of \<bar>x\<bar>; d = bitlen p - bitlen q
      in if 2 powi d \<le> \<bar>x\<bar> then d else d - 1)"

text \<open>
  The float nearest to \<open>x\<close>: \<open>x\<close> rounded to a multiple of \<open>2 powi (e - 52)\<close>, where
  \<open>e\<close> is the exponent of \<open>x\<close>. It is the value of a float literal, of \<^verbatim>\<open>float(text)\<close> and
  of the conversion of an \<^verbatim>\<open>int\<close>.
\<close>

definition double :: "rat \<Rightarrow> rat" where
  "double x =
     (if x = 0 then 0
      else (let ulp = 2 powi (exponent x - 52)
            in of_int (round_half_even (x / ulp)) * ulp))"

text \<open>
  \<^verbatim>\<open>a * b\<close>, \<^verbatim>\<open>a / b\<close> and \<^verbatim>\<open>a + b\<close> on floats; \<^verbatim>\<open>a / b\<close> on two
  \<^verbatim>\<open>int\<close>s gives the same correctly rounded quotient.
\<close>

definition fmul :: "rat \<Rightarrow> rat \<Rightarrow> rat" where
  "fmul a b = double (a * b)"

definition fdiv :: "rat \<Rightarrow> rat \<Rightarrow> rat" where
  "fdiv a b = double (a / b)"

definition fadd :: "rat \<Rightarrow> rat \<Rightarrow> rat" where
  "fadd a b = double (a + b)"

section \<open>Prices and the one-decimal floor\<close>

text \<open>A price is a float.\<close>

type_synonym price = rat

text \<open>
  \<^verbatim>\<open>math.floor(x * 10) / 10\<close>, the rounding of every price in the source: the
  product is a float, \<^verbatim>\<open>math.floor\<close> gives an \<^verbatim>\<open>int\<close>, and the division of that
  \<^verbatim>\<open>int\<close> by 10 is a float again.
\<close>

definition floor_1dec :: "price \<Rightarrow> price" where
  "floor_1dec x = fdiv (of_int \<lfloor>fmul x 10\<rfloor>) 10"

section \<open>The trader's state\<close>

text \<open>
  The file \<^verbatim>\<open>order_logs/bot_state.txt\<close> as \<^verbatim>\<open>_save_state_to_local_storage\<close> writes
  it: nine lines \<^verbatim>\<open>key:value\<close> in this order. Each field stands for the text after
  the colon, given by the Python value whose \<^verbatim>\<open>str()\<close> it is: \<open>None\<close> in a numeric
  field is the text \<^verbatim>\<open>None\<close>, a string field holds its characters.
\<close>

record state_file =
  f_last_transaction_id :: string
  f_last_known_price :: "price option"
  f_last_known_qty :: "int option"
  f_trading_date :: string
  f_circuit_limit_price_for_date :: "price option"
  f_regular_session_price_for_date :: "price option"
  f_circuit_hit_for_date :: bool
  f_last_known_high :: "price option"
  f_last_order_at_circuit :: bool

text \<open>One line of \<^verbatim>\<open>latency_profiler.log\<close>, with the latency as the decimal number
  printed in it, and one row of the order log.\<close>

record latency_line =
  logged_at :: string
  latency_ms :: rat
  extra_info :: string

text \<open>The exception that \<^verbatim>\<open>open\<close> or \<^verbatim>\<open>write\<close> raises when a file cannot be written.\<close>

datatype error = OSError

record order_row =
  row_price :: "price option"
  row_status :: string
  row_mode :: string
  row_click_count :: nat

text \<open>\<^verbatim>\<open>class LatencyProfiler\<close>: two marks in nanoseconds, \<open>None\<close> when unset.\<close>

record profiler =
  boundary_order_time :: "int option"
  server_response_time :: "int option"

text \<open>
  The attributes of \<^verbatim>\<open>class NepseTrader\<close> that the price engine, the dispatch loop
  and the boundary scheduler read or write, with the three files they append to or
  overwrite. \<open>buy_clicks\<close> counts the clicks delivered to the BUY button of the page
  (\<^verbatim>\<open>driver.execute_script("arguments[0].click();", buy_button)\<close>).
\<close>

record trader =
  pre_close_price :: "price option"
  last_transaction_id :: "string option"
  last_known_price :: "price option"
  last_known_qty :: "int option"
  trading_date :: "string option"
  circuit_limit_price_for_date :: "price option"
  regular_session_price_for_date :: "price option"
  circuit_hit_for_date :: bool
  last_known_high :: "price option"
  last_order_at_circuit :: bool
  successful_orders :: nat
  order_success :: bool
  stop_clicking :: bool
  latency_profiler :: profiler
  bot_state_txt :: "state_file option"
  latency_log :: "latency_line list"
  order_log :: "order_row list"
  buy_clicks :: nat

text \<open>
  What one call of a price function reads from outside the object: the module
  constant \<^verbatim>\<open>CIRCUIT_LIMIT_PERCENTAGE\<close> (the \<^verbatim>\<open>int\<close> 10, or the float given with
  \<^verbatim>\<open>--circuit-limit\<close>), \<^verbatim>\<open>date.today().isoformat()\<close>, the \<^verbatim>\<open>Pre Close\<close> and
  \<^verbatim>\<open>High\<close> elements of the page as the floats that \<^verbatim>\<open>float\<close> makes of them
  (\<open>None\<close> when the wait, the lookup or the parse raises), and whether the price
  input of the form can be found and filled.
\<close>

record env =
  circuit_limit_percentage :: rat
  today :: string
  page_pre_close :: "price option"
  page_high :: "price option"
  price_input_ok :: bool

section \<open>Persistence\<close>

text \<open>\<^verbatim>\<open>f"{v}"\<close> for an attribute that is a string or \<^verbatim>\<open>None\<close>.\<close>

definition str_of :: "string option \<Rightarrow> string" where
  "str_of v = (case v of None \<Rightarrow> ''None'' | Some x \<Rightarrow> x)"

definition file_of :: "trader \<Rightarrow> state_file" where
  "file_of s =
     \<lparr> f_last_transaction_id = str_of (last_transaction_id s),
       f_last_known_price = last_known_price s,
       f_last_known_qty = last_known_qty s,
       f_trading_date = str_of (trading_date s),
       f_circuit_limit_price_for_date = circuit_limit_price_for_date s,
       f_regular_session_price_for_date = regular_session_price_for_date s,
       f_circuit_hit_for_date = circuit_hit_for_date s,
       f_last_known_high = last_known_high s,
       f_last_order_at_circuit = last_order_at_circuit s \<rparr>"

text \<open>
  \<^verbatim>\<open>_save_state_to_local_storage\<close> opens the file with mode \<^verbatim>\<open>"w"\<close> and writes the
  nine lines. The write is taken to succeed (the source logs and swallows an
  I/O error).
\<close>

definition save_state_to_local_storage :: "trader \<Rightarrow> trader" where
  "save_state_to_local_storage s = s\<lparr>bot_state_txt := Some (file_of s)\<rparr>"

section \<open>The price engine\<close>

text \<open>\<^verbatim>\<open>get_pre_close_price\<close>: the cached value if there is one, else the page.\<close>

definition get_pre_close_price :: "env \<Rightarrow> trader \<Rightarrow> price option \<times> trader" where
  "get_pre_close_price e s =
     (case pre_close_price s of
        Some p \<Rightarrow> (Some p, s)
      | None \<Rightarrow>
          (case page_pre_close e of
             Some v \<Rightarrow> (Some v, s\<lparr>pre_close_price := Some v\<rparr>)
           | None \<Rightarrow> (None, s)))"

text \<open>\<^verbatim>\<open>_reset_daily_limits_if_needed\<close>, with \<open>current_date\<close> the date it observes.\<close>

definition reset_daily_limits_if_needed :: "string \<Rightarrow> trader \<Rightarrow> trader" where
  "reset_daily_limits_if_needed current_date s =
     (if trading_date s \<noteq> Some current_date then
        save_state_to_local_storage
          (s\<lparr>trading_date := Some current_date,
             circuit_limit_price_for_date := None,
             regular_session_price_for_date := None,
             circuit_hit_for_date := False,
             last_known_high := None,
             last_order_at_circuit := False\<rparr>)
      else s)"

text \<open>
  \<^verbatim>\<open>fill_price_pre_open\<close>: the whole body is inside \<^verbatim>\<open>try\<close>, and every failure
  returns \<^verbatim>\<open>(None, False)\<close>. The literal \<^verbatim>\<open>1.02\<close> is the float nearest to
  \<open>51 / 50\<close>.
\<close>

definition fill_price_pre_open :: "env \<Rightarrow> trader \<Rightarrow> (price option \<times> bool) \<times> trader" where
  "fill_price_pre_open e s =
     (case get_pre_close_price e s of
        (None, s1) \<Rightarrow> ((None, False), s1)
      | (Some pre_close_value, s1) \<Rightarrow>
          (let open_price = fmul pre_close_value (double (51 / 50));
               pre_open_price = floor_1dec open_price
           in if price_input_ok e then ((Some pre_open_price, False), s1)
              else ((None, False), s1)))"

text \<open>
  \<^verbatim>\<open>fill_price_regular\<close> from \<^verbatim>\<open>at_circuit = False\<close> to its end. \<open>limit\<close> is
  \<^verbatim>\<open>self.circuit_limit_price_for_date\<close>, which is not \<^verbatim>\<open>None\<close> there.
\<close>

definition regular_price_decision ::
  "env \<Rightarrow> price \<Rightarrow> trader \<Rightarrow> (price option \<times> bool) \<times> trader" where
  "regular_price_decision e limit s =
     (let (price_to_use, at_circuit, s1) =
            (if circuit_hit_for_date s then (limit, True, s)
             else
               (let calculated_price =
                      (case page_high e of
                         Some high_value \<Rightarrow> floor_1dec (fmul high_value (double (51 / 50)))
                       | None \<Rightarrow> limit)
                in if calculated_price \<ge> limit
                   then (limit, True,
                         save_state_to_local_storage (s\<lparr>circuit_hit_for_date := True\<rparr>))
                   else (calculated_price, False, save_state_to_local_storage s)));
          s2 = save_state_to_local_storage
                 (s1\<lparr>regular_session_price_for_date := Some price_to_use\<rparr>)
      in ((if price_input_ok e then Some price_to_use else None, at_circuit), s2))"

text \<open>
  \<^verbatim>\<open>fill_price_regular\<close>: the daily reset, the circuit limit on first use for the
  date (an early \<^verbatim>\<open>return None, False\<close> when the pre-close price is missing), then
  the decision above.
\<close>

definition fill_price_regular :: "env \<Rightarrow> trader \<Rightarrow> (price option \<times> bool) \<times> trader" where
  "fill_price_regular e s =
     (let s1 = reset_daily_limits_if_needed (today e) s
      in case circuit_limit_price_for_date s1 of
           Some limit \<Rightarrow> regular_price_decision e limit s1
         | None \<Rightarrow>
             (case get_pre_close_price e s1 of
                (None, s2) \<Rightarrow> ((None, False), s2)
              | (Some pre_close_value, s2) \<Rightarrow>
                  (let circuit_limit_price =
                         floor_1dec
                           (fmul pre_close_value
                              (fadd 1 (fdiv (circuit_limit_percentage e) 100)));
                       s3 = save_state_to_local_storage
                              (s2\<lparr>circuit_limit_price_for_date := Some circuit_limit_price,
                                  circuit_hit_for_date := False,
                                  last_order_at_circuit := False\<rparr>)
                   in regular_price_decision e circuit_limit_price s3)))"

section \<open>The latency profiler\<close>

text \<open>\<^verbatim>\<open>LatencyProfiler._reset\<close>.\<close>

definition profiler_reset :: "profiler \<Rightarrow> profiler" where
  "profiler_reset p = p\<lparr>boundary_order_time := None, server_response_time := None\<rparr>"

text \<open>
  \<^verbatim>\<open>mark_boundary_click\<close> and \<^verbatim>\<open>mark_server_response\<close> store \<^verbatim>\<open>tm.time_ns()\<close>, the
  argument here.
\<close>

definition mark_boundary_click :: "int \<Rightarrow> profiler \<Rightarrow> profiler" where
  "mark_boundary_click time_ns p = p\<lparr>boundary_order_time := Some time_ns\<rparr>"

definition mark_server_response :: "int \<Rightarrow> profiler \<Rightarrow> profiler" where
  "mark_server_response time_ns p = p\<lparr>server_response_time := Some time_ns\<rparr>"

text \<open>
  The truth value Python gives a mark in \<^verbatim>\<open>if self.boundary_order_time and
  self.server_response_time\<close>: \<^verbatim>\<open>None\<close> and \<^verbatim>\<open>0\<close> are false.
\<close>

definition mark_set :: "int option \<Rightarrow> bool" where
  "mark_set m = (case m of None \<Rightarrow> False | Some t \<Rightarrow> t \<noteq> 0)"

text \<open>
  The number that \<^verbatim>\<open>{latency_ms:.3f}\<close> prints: the float rounded to three
  decimals, a tie going to the even digit.
\<close>

definition format_3f :: "rat \<Rightarrow> rat" where
  "format_3f x = of_int (round_half_even (x * 1000)) / 1000"

text \<open>
  \<^verbatim>\<open>LatencyProfiler.record(extra_info)\<close> on the profiler and its log file;
  \<open>now\<close> is \<^verbatim>\<open>datetime.now().isoformat()\<close>. The latency is
  \<^verbatim>\<open>(server_response_time - boundary_order_time) / 1e6\<close>, the difference of two
  \<^verbatim>\<open>int\<close>s converted to a float and divided by the float \<^verbatim>\<open>1e6\<close>. \<open>write_ok\<close>
  says whether the log file can be opened and written. When it cannot, \<^verbatim>\<open>open\<close>
  raises, nothing is appended, and the exception leaves \<^verbatim>\<open>record\<close> before
  \<^verbatim>\<open>self._reset()\<close>, which stands after the \<^verbatim>\<open>with\<close> block and under no
  \<^verbatim>\<open>finally\<close>: the marks stay as they are. The result is the exception or the
  normal return, with the profiler and the log file as the call leaves them.
\<close>

definition profiler_record ::
  "bool \<Rightarrow> string \<Rightarrow> string \<Rightarrow> profiler \<Rightarrow> latency_line list
     \<Rightarrow> (error + unit) \<times> profiler \<times> latency_line list" where
  "profiler_record write_ok now extra p logfile =
     (case (boundary_order_time p, server_response_time p) of
        (Some b, Some r) \<Rightarrow>
          if b \<noteq> 0 \<and> r \<noteq> 0 then
            (let latency = fdiv (double (of_int (r - b))) 1000000
             in if write_ok then
                  (Inr (), profiler_reset p,
                   logfile @ [\<lparr>logged_at = now, latency_ms = format_3f latency,
                                extra_info = extra\<rparr>])
                else (Inl OSError, p, logfile))
          else (Inr (), profiler_reset p, logfile)
      | _ \<Rightarrow> (Inr (), profiler_reset p, logfile))"

section \<open>The dispatch loop\<close>

text \<open>\<^verbatim>\<open>str(n)\<close> for a natural number, as in \<^verbatim>\<open>f"OrderClicks:{click_count}"\<close>.\<close>

function string_of_nat :: "nat \<Rightarrow> string" where
  "string_of_nat n =
     (if n < 10 then [char_of (48 + n)]
      else string_of_nat (n div 10) @ [char_of (48 + n mod 10)])"
  by pat_completeness auto
termination
  by (relation "measure id") auto

declare string_of_nat.simps [simp del]

text \<open>
  What happens inside the \<^verbatim>\<open>try\<close> of one iteration of
  \<^verbatim>\<open>for target_ns in click_times\<close>:
  \<^item> \<open>No_click\<close>: \<^verbatim>\<open>find_element\<close> or the click script raises, the iteration ends
    with \<^verbatim>\<open>continue\<close> before \<^verbatim>\<open>click_count += 1\<close>;
  \<^item> \<open>Click_push_error\<close>: the click is counted, then \<^verbatim>\<open>self.ring.push\<close> raises;
  \<^item> \<open>Click_probe_error\<close>: the click is counted and marked, then a probe for a
    success message raises;
  \<^item> \<open>Click_no_success\<close>: the click is counted and none of the three success
    messages is present;
  \<^item> \<open>Click_success\<close>: the click is counted and a success message is present.

  The first two \<^verbatim>\<open>except\<close> clauses of the loop end the iteration with
  \<^verbatim>\<open>continue\<close>, whatever was raised inside the \<^verbatim>\<open>try\<close>.
\<close>

datatype click_outcome =
  No_click | Click_push_error | Click_probe_error | Click_no_success | Click_success

text \<open>
  What the environment does at one target timestamp: whether a cancellation
  (\<^verbatim>\<open>refresh_requested\<close>, \<^verbatim>\<open>stop_clicking\<close> set by the hotkey thread, or
  \<^verbatim>\<open>not self.active\<close>) is seen by the test at the head of the loop or by the test
  after \<^verbatim>\<open>busy_wait_until\<close>, the outcome of the click, the clock readings used
  if the profiler is marked or flushed, and whether the latency log can be
  written at that moment.
\<close>

record tick =
  cancel_at_top :: bool
  cancel_after_wait :: bool
  outcome :: click_outcome
  click_time_ns :: int
  response_time_ns :: int
  now_iso :: string
  log_write_ok :: bool

definition MAX_CLICKS :: nat where
  "MAX_CLICKS = 32768"

text \<open>The click itself and \<^verbatim>\<open>click_count += 1\<close> are both done.\<close>

definition counted :: "click_outcome \<Rightarrow> bool" where
  "counted out = (out \<noteq> No_click)"

text \<open>\<^verbatim>\<open>if not profiler_boundary_triggered: self.latency_profiler.mark_boundary_click()\<close>.\<close>

definition mark_first_click :: "tick \<Rightarrow> bool \<Rightarrow> trader \<Rightarrow> trader" where
  "mark_first_click t profiler_boundary_triggered s =
     (if \<not> profiler_boundary_triggered
      then s\<lparr>latency_profiler := mark_boundary_click (click_time_ns t) (latency_profiler s)\<rparr>
      else s)"

text \<open>
  The four statements run when a success message is found:
  \<^verbatim>\<open>mark_server_response()\<close>, \<^verbatim>\<open>record(...)\<close>, \<^verbatim>\<open>self.order_success.set()\<close> and
  \<^verbatim>\<open>self.stop_clicking.set()\<close>. An exception of \<^verbatim>\<open>record\<close> leaves them after the
  second: the response mark is stored, the two events are not set.
\<close>

definition on_success :: "tick \<Rightarrow> nat \<Rightarrow> trader \<Rightarrow> (error + unit) \<times> trader" where
  "on_success t click_count s =
     (let p1 = mark_server_response (response_time_ns t) (latency_profiler s);
          (res, p2, logfile) = profiler_record (log_write_ok t) (now_iso t)
                            (''OrderClicks:'' @ string_of_nat click_count) p1 (latency_log s);
          s1 = s\<lparr>latency_profiler := p2, latency_log := logfile\<rparr>
      in case res of
           Inl err \<Rightarrow> (Inl err, s1)
         | Inr u \<Rightarrow> (Inr (), s1\<lparr>order_success := True, stop_clicking := True\<rparr>))"

text \<open>
  The loop \<^verbatim>\<open>for target_ns in click_times\<close> of \<^verbatim>\<open>rapid_click_buy_button\<close>
  (\<^verbatim>\<open>Integrated.py\<close> 666-703, the same in \<^verbatim>\<open>Integrated_Version7.py\<close>): the
  list holds the indices of the targets still to come, \<open>ev i\<close> is what happens at
  target \<open>i\<close>. When the four statements of a success end with an exception, the
  \<^verbatim>\<open>except Exception\<close> clause logs it and the loop goes on to the next target,
  with the click counted.
\<close>

fun click_loop ::
  "(nat \<Rightarrow> tick) \<Rightarrow> nat list \<Rightarrow> nat \<Rightarrow> bool \<Rightarrow> trader \<Rightarrow> (nat \<times> bool) \<times> trader" where
  "click_loop ev [] click_count trig s = ((click_count, order_success s), s)"
| "click_loop ev (i # targets) click_count trig s =
     (if order_success s \<or> stop_clicking s \<or> cancel_at_top (ev i)
      then ((click_count, order_success s), s)
      else if cancel_after_wait (ev i)
      then ((click_count, order_success s), s)
      else
        (case outcome (ev i) of
           No_click \<Rightarrow> click_loop ev targets click_count trig s
         | Click_push_error \<Rightarrow>
             click_loop ev targets (click_count + 1) trig
               (s\<lparr>buy_clicks := buy_clicks s + 1\<rparr>)
         | Click_probe_error \<Rightarrow>
             click_loop ev targets (click_count + 1) True
               (mark_first_click (ev i) trig (s\<lparr>buy_clicks := buy_clicks s + 1\<rparr>))
         | Click_no_success \<Rightarrow>
             click_loop ev targets (click_count + 1) True
               (mark_first_click (ev i) trig (s\<lparr>buy_clicks := buy_clicks s + 1\<rparr>))
         | Click_success \<Rightarrow>
             (case on_success (ev i) (click_count + 1)
                     (mark_first_click (ev i) trig (s\<lparr>buy_clicks := buy_clicks s + 1\<rparr>)) of
                (Inr u, s1) \<Rightarrow> ((click_count + 1, True), s1)
              | (Inl err, s1) \<Rightarrow> click_loop ev targets (click_count + 1) True s1)))"

text \<open>
  \<^verbatim>\<open>rapid_click_buy_button\<close>, the sequential loop: both events are cleared, the
  \<^verbatim>\<open>MAX_CLICKS\<close> targets are generated, the loop runs.
\<close>

definition rapid_click_buy_button :: "(nat \<Rightarrow> tick) \<Rightarrow> trader \<Rightarrow> (nat \<times> bool) \<times> trader" where
  "rapid_click_buy_button ev s =
     click_loop ev [0..<MAX_CLICKS] 0 False (s\<lparr>stop_clicking := False, order_success := False\<rparr>)"

section \<open>Order placement and the boundary scheduler\<close>

text \<open>
  \<^verbatim>\<open>prepare_order_form\<close>: the two flags it tests first, the result of
  \<^verbatim>\<open>check_session_validity\<close>, and whether the rest (the tabs, the symbol and
  quantity fields, the buy toggle) goes through; an exception there returns
  \<^verbatim>\<open>False\<close> as well.
\<close>

record form_env =
  form_refresh_requested :: bool
  form_active :: bool
  form_session_valid :: bool
  form_fields_ok :: bool

definition prepare_order_form :: "form_env \<Rightarrow> bool" where
  "prepare_order_form f =
     (if form_refresh_requested f \<or> \<not> form_active f then False
      else if \<not> form_session_valid f then False
      else form_fields_ok f)"

text \<open>
  \<^verbatim>\<open>log_order\<close> appends a row to the order log (the timestamp, symbol and
  quantity columns are left out).
\<close>

definition log_order :: "price option \<Rightarrow> string \<Rightarrow> string \<Rightarrow> nat \<Rightarrow> trader \<Rightarrow> trader" where
  "log_order price status mode click_count s =
     s\<lparr>order_log := order_log s @
          [\<lparr>row_price = price, row_status = status, row_mode = mode,
            row_click_count = click_count\<rparr>]\<rparr>"

text \<open>
  One iteration of the loop \<^verbatim>\<open>while datetime.now() < boundary_time\<close> that follows
  the price fill: the two flags, and whether \<open>delta\<close> is positive. The list of a
  run holds the iterations in which the loop test was true.
\<close>

record wait_obs =
  wait_refresh_requested :: bool
  wait_active :: bool
  wait_delta_positive :: bool

text \<open>\<open>True\<close> when the loop ends because the boundary is reached, \<open>False\<close> on \<^verbatim>\<open>return\<close>.\<close>

fun wait_for_boundary :: "wait_obs list \<Rightarrow> bool" where
  "wait_for_boundary [] = True"
| "wait_for_boundary (w # ws) =
     (if wait_refresh_requested w \<or> \<not> wait_active w \<or> \<not> wait_delta_positive w then False
      else wait_for_boundary ws)"

text \<open>
  What \<^verbatim>\<open>_schedule_boundary_order\<close> observes: \<^verbatim>\<open>self.active\<close> after
  \<^verbatim>\<open>_wait_until(refresh_time)\<close>, \<^verbatim>\<open>check_session_validity()\<close> after the refresh,
  the form preparation, and the wait for the boundary.
\<close>

record sched_env =
  active_after_wait :: bool
  session_valid :: bool
  form :: form_env
  fine_wait :: "wait_obs list"

text \<open>
  \<^verbatim>\<open>_schedule_boundary_order(boundary_time, fill_price_fn, boundary_type)\<close>. The
  source returns \<^verbatim>\<open>None\<close> on every path; the first component here is what
  \<^verbatim>\<open>rapid_click_buy_button\<close> returned when it was called, and \<open>None\<close> when it was
  not called.
\<close>

definition schedule_boundary_order ::
  "sched_env \<Rightarrow> (trader \<Rightarrow> (price option \<times> bool) \<times> trader) \<Rightarrow> (nat \<Rightarrow> tick) \<Rightarrow> trader
     \<Rightarrow> (nat \<times> bool) option \<times> trader" where
  "schedule_boundary_order se fill_price_fn ev s =
     (if \<not> active_after_wait se then (None, s)
      else if \<not> session_valid se then (None, s)
      else if \<not> prepare_order_form (form se) then (None, s)
      else
        (let ((price, at_circuit), s1) = fill_price_fn s
         in if \<not> wait_for_boundary (fine_wait se) then (None, s1)
            else
              (let s2 = s1\<lparr>latency_profiler := profiler_reset (latency_profiler s1)\<rparr>;
                   ((click_count, success), s3) = rapid_click_buy_button ev s2
               in if success then
                    (Some (click_count, success),
                     save_state_to_local_storage
                       ((log_order price ''SUCCESS'' ''BOUNDARY'' click_count
                           (s3\<lparr>successful_orders := successful_orders s3 + 1\<rparr>))
                        \<lparr>last_order_at_circuit := at_circuit\<rparr>))
                  else
                    (Some (click_count, success),
                     log_order price ''FAILED'' ''BOUNDARY'' click_count s3))))"

text \<open>
  What \<^verbatim>\<open>place_buy_order\<close> observes before it fills the price.
\<close>

record place_env =
  place_refresh_requested :: bool
  place_active :: bool
  place_session_valid :: bool
  place_form :: form_env
  is_pre_open_hours :: bool

text \<open>
  \<^verbatim>\<open>place_buy_order(form_filling_mode)\<close>, the order path of the main loop. The
  first component is its return value, the second what \<^verbatim>\<open>rapid_click_buy_button\<close>
  returned when it was called.
\<close>

definition place_buy_order ::
  "place_env \<Rightarrow> env \<Rightarrow> (nat \<Rightarrow> tick) \<Rightarrow> bool \<Rightarrow> trader
     \<Rightarrow> (bool \<times> (nat \<times> bool) option) \<times> trader" where
  "place_buy_order pe e ev form_filling_mode s =
     (if place_refresh_requested pe \<or> \<not> place_active pe then ((False, None), s)
      else if \<not> place_session_valid pe then ((False, None), s)
      else if \<not> prepare_order_form (place_form pe) then ((False, None), s)
      else
        (let ((price, at_circuit), s1) =
               (if is_pre_open_hours pe then fill_price_pre_open e s
                else fill_price_regular e s)
         in if price = None then ((False, None), s1)
            else if form_filling_mode then
              ((False, None),
               (log_order price ''FORM_FILLED'' ''FORM_MODE'' 0 s1)
                 \<lparr>successful_orders := successful_orders s1 + 1\<rparr>)
            else
              (let ((click_count, success), s2) = rapid_click_buy_button ev s1
               in if success then
                    ((at_circuit, Some (click_count, success)),
                     save_state_to_local_storage
                       ((log_order price ''SUCCESS'' ''TRADING'' click_count
                           (s2\<lparr>successful_orders := successful_orders s2 + 1\<rparr>))
                        \<lparr>last_order_at_circuit := at_circuit\<rparr>))
                  else
                    ((False, Some (click_count, success)),
                     log_order price ''FAILED'' ''TRADING'' click_count s2))))"

section \<open>Process start\<close>

text \<open>
  \<^verbatim>\<open>_restore_state_from_local_storage\<close> reads the lines in the order they were
  written, inside one \<^verbatim>\<open>try\<close>. \<^verbatim>\<open>last_known_price\<close> is read with
  \<^verbatim>\<open>float(...)\<close> and \<^verbatim>\<open>last_known_qty\<close> with \<^verbatim>\<open>int(...)\<close>, which raise
  \<^verbatim>\<open>ValueError\<close> on the text \<^verbatim>\<open>None\<close>: the \<^verbatim>\<open>except\<close> clause logs the error and the
  lines that follow are not read. The later numeric fields are read with
  \<^verbatim>\<open>float(val) if val != "None" else None\<close>.
\<close>

definition restore_state_from_local_storage :: "trader \<Rightarrow> trader" where
  "restore_state_from_local_storage s =
     (case bot_state_txt s of
        None \<Rightarrow> s
      | Some f \<Rightarrow>
          (let s1 = s\<lparr>last_transaction_id := Some (f_last_transaction_id f)\<rparr>
           in case f_last_known_price f of
                None \<Rightarrow> s1
              | Some p \<Rightarrow>
                  (let s2 = s1\<lparr>last_known_price := Some p\<rparr>
                   in case f_last_known_qty f of
                        None \<Rightarrow> s2
                      | Some q \<Rightarrow>
                          s2\<lparr>last_known_qty := Some q,
                             trading_date := Some (f_trading_date f),
                             circuit_limit_price_for_date := f_circuit_limit_price_for_date f,
                             regular_session_price_for_date :=
                               f_regular_session_price_for_date f,
                             circuit_hit_for_date := f_circuit_hit_for_date f,
                             last_known_high := f_last_known_high f,
                             last_order_at_circuit := f_last_order_at_circuit f\<rparr>)))"

text \<open>
  \<^verbatim>\<open>NepseTrader.__init__\<close> in a new process: every attribute gets its default,
  then the state file is restored. The three files and the page are what the
  previous process left.
\<close>

definition restart :: "trader \<Rightarrow> trader" where
  "restart s =
     restore_state_from_local_storage
       \<lparr> pre_close_price = None,
         last_transaction_id = None,
         last_known_price = None,
         last_known_qty = None,
         trading_date = None,
         circuit_limit_price_for_date = None,
         regular_session_price_for_date = None,
         circuit_hit_for_date = False,
         last_known_high = None,
         last_order_at_circuit = False,
         successful_orders = 0,
         order_success = False,
         stop_clicking = False,
         latency_profiler = \<lparr>boundary_order_time = None, server_response_time = None\<rparr>,
         bot_state_txt = bot_state_txt s,
         latency_log = latency_log s,
         order_log = order_log s,
         buy_clicks = buy_clicks s \<rparr>"

text \<open>The trader of a first start, with no state file.\<close>

definition first_start :: trader where
  "first_start =
     \<lparr> pre_close_price = None,
       last_transaction_id = None,
       last_known_price = None,
       last_known_qty = None,
       trading_date = None,
       circuit_limit_price_for_date = None,
       regular_session_price_for_date = None,
       circuit_hit_for_date = False,
       last_known_high = None,
       last_order_at_circuit = False,
       successful_orders = 0,
       order_success = False,
       stop_clicking = False,
       latency_profiler = \<lparr>boundary_order_time = None, server_response_time = None\<rparr>,
       bot_state_txt = None,
       latency_log = [],
       order_log = [],
       buy_clicks = 0 \<rparr>"

section \<open>The four-thread dispatch loop\<close>

text \<open>
  The second script of \<^verbatim>\<open>Integrated.py\<close> (lines 1560-1608) runs
  \<^verbatim>\<open>click_forever\<close> in four threads that share \<^verbatim>\<open>click_count\<close>, the two events
  and the page. A thread is at the test of its \<^verbatim>\<open>while\<close>, before its click, before
  its probe for a success message, or has returned. A step of a thread is taken as
  atomic; the paths through the \<^verbatim>\<open>except\<close> clauses, which only sleep and go back
  to the test, are left out. \<open>success_present n\<close> says whether a success message is
  on the page once it has received \<open>n\<close> clicks.
\<close>

datatype pc = At_while | At_click | At_probe | Returned

record click_threads =
  th_click_count :: nat
  th_order_success :: bool
  th_stop_clicking :: bool
  th_buy_clicks :: nat
  th_pc :: "pc list"

definition thread_step :: "(nat \<Rightarrow> bool) \<Rightarrow> nat \<Rightarrow> click_threads \<Rightarrow> click_threads" where
  "thread_step success_present i c =
     (if i < length (th_pc c) then
        (case th_pc c ! i of
           At_while \<Rightarrow>
             if \<not> th_order_success c \<and> \<not> th_stop_clicking c
             then c\<lparr>th_pc := (th_pc c)[i := At_click]\<rparr>
             else c\<lparr>th_pc := (th_pc c)[i := Returned]\<rparr>
         | At_click \<Rightarrow>
             c\<lparr>th_click_count := th_click_count c + 1,
               th_buy_clicks := th_buy_clicks c + 1,
               th_pc := (th_pc c)[i := At_probe]\<rparr>
         | At_probe \<Rightarrow>
             if success_present (th_buy_clicks c)
             then c\<lparr>th_order_success := True, th_stop_clicking := True,
                    th_pc := (th_pc c)[i := Returned]\<rparr>
             else c\<lparr>th_pc := (th_pc c)[i := At_while]\<rparr>
         | Returned \<Rightarrow> c)
      else c)"

text \<open>
  The threaded \<^verbatim>\<open>rapid_click_buy_button\<close> under a schedule, the list of the
  threads that take the successive steps: the result after the four joins, and
  \<open>None\<close> if a thread has not returned when the schedule ends.
\<close>

definition rapid_click_buy_button_threads ::
  "(nat \<Rightarrow> bool) \<Rightarrow> nat list \<Rightarrow> (nat \<times> bool) option" where
  "rapid_click_buy_button_threads success_present schedule =
     (let c = fold (thread_step success_present) schedule
                \<lparr>th_click_count = 0, th_order_success = False, th_stop_clicking = False,
                 th_buy_clicks = 0, th_pc = [At_while, At_while, At_while, At_while]\<rparr>
      in if th_pc c = [Returned, Returned, Returned, Returned]
         then Some (th_click_count c, th_order_success c)
         else None)"

section \<open>Runs of one process\<close>

text \<open>
  The methods that write the trader's state, each with what it observes, and a
  run of a process as a list of such calls. The boundary scheduler is called with
  \<^verbatim>\<open>fill_price_pre_open\<close> or with \<^verbatim>\<open>fill_price_regular\<close>.
\<close>

datatype call =
    Fill_regular env
  | Fill_pre_open env
  | Get_pre_close env
  | Daily_reset string
  | Rapid_click "nat \<Rightarrow> tick"
  | Schedule_pre_open sched_env env "nat \<Rightarrow> tick"
  | Schedule_regular sched_env env "nat \<Rightarrow> tick"
  | Place_order place_env env "nat \<Rightarrow> tick" bool

fun do_call :: "call \<Rightarrow> trader \<Rightarrow> trader" where
  "do_call (Fill_regular e) s = snd (fill_price_regular e s)"
| "do_call (Fill_pre_open e) s = snd (fill_price_pre_open e s)"
| "do_call (Get_pre_close e) s = snd (get_pre_close_price e s)"
| "do_call (Daily_reset d) s = reset_daily_limits_if_needed d s"
| "do_call (Rapid_click ev) s = snd (rapid_click_buy_button ev s)"
| "do_call (Schedule_pre_open se e ev) s =
     snd (schedule_boundary_order se (fill_price_pre_open e) ev s)"
| "do_call (Schedule_regular se e ev) s =
     snd (schedule_boundary_order se (fill_price_regular e) ev s)"
| "do_call (Place_order pe e ev form_filling_mode) s =
     snd (place_buy_order pe e ev form_filling_mode s)"

text \<open>The date a call observes, if it observes one.\<close>

fun observed_date :: "call \<Rightarrow> string option" where
  "observed_date (Fill_regular e) = Some (today e)"
| "observed_date (Daily_reset d) = Some d"
| "observed_date (Schedule_regular se e ev) = Some (today e)"
| "observed_date (Place_order pe e ev form_filling_mode) = Some (today e)"
| "observed_date _ = None"

definition run :: "call list \<Rightarrow> trader \<Rightarrow> trader" where
  "run calls s = fold do_call calls s"

section \<open>Interruptible waits\<close>

text \<open>
  The waits of the bot over a logical clock. Time is a rational number of
  seconds; \<^verbatim>\<open>tm.sleep(d)\<close> takes exactly \<open>d\<close> seconds, everything else takes no
  time, and the differences of clock readings are exact. The hotkey thread sets
  \<^verbatim>\<open>refresh_requested\<close>, or clears \<^verbatim>\<open>active\<close>, at the instant \<open>T\<close>: a test of
  the flags made at the time \<open>now\<close> sees the cancellation when \<open>T \<le> now\<close>. Each
  function returns the time at which the wait returns.
\<close>

text \<open>
  \<^verbatim>\<open>_wait_until(target_dt)\<close> of \<^verbatim>\<open>Integrated.py\<close> (808-815), entered at the time
  \<open>now\<close>: it sleeps \<^verbatim>\<open>min(0.1, delta)\<close> between two tests of the flags.
\<close>

function wait_until :: "rat \<Rightarrow> rat \<Rightarrow> rat \<Rightarrow> rat" where
  "wait_until T target_dt now =
     (if now < target_dt then
        (let delta = target_dt - now;
             interval = min (1 / 10) delta
         in if T \<le> now \<or> delta \<le> 0 then now
            else wait_until T target_dt (now + interval))
      else now)"
  by pat_completeness auto
termination
proof (relation "measure (\<lambda>(T, target_dt, now). nat \<lceil>(target_dt - now) * 10\<rceil>)")
  show "wf (measure (\<lambda>(T, target_dt, now). nat \<lceil>(target_dt - now) * 10\<rceil>))"
    by simp
next
  fix T target_dt now delta interval :: rat
  assume lt: "now < target_dt" and d: "delta = target_dt - now"
    and i: "interval = min (1 / 10) delta"
  have pos: "0 < \<lceil>(target_dt - now) * 10\<rceil>" using lt by simp
  have "\<lceil>(target_dt - (now + interval)) * 10\<rceil> < \<lceil>(target_dt - now) * 10\<rceil>"
  proof (cases "delta \<le> 1 / 10")
    case True
    with i d have "target_dt - (now + interval) = 0" by (simp add: min_def)
    with pos show ?thesis by simp
  next
    case False
    with i d have "(target_dt - (now + interval)) * 10 = (target_dt - now) * 10 - 1"
      by (simp add: min_def algebra_simps)
    then have "\<lceil>(target_dt - (now + interval)) * 10\<rceil> = \<lceil>(target_dt - now) * 10\<rceil> - 1"
      by (simp only: ceiling_diff_one)
    then show ?thesis by linarith
  qed
  with pos show "((T, target_dt, now + interval), (T, target_dt, now))
        \<in> measure (\<lambda>(T, target_dt, now). nat \<lceil>(target_dt - now) * 10\<rceil>)"
    by simp
qed

declare wait_until.simps [simp del]

text \<open>
  \<^verbatim>\<open>interruptible_sleep(total_seconds)\<close> of \<^verbatim>\<open>Integrated.py\<close> (365-372), with the
  local variable \<open>slept\<close>, which starts at 0: it sleeps \<^verbatim>\<open>interval = 0.1\<close>
  between two tests of the flags.
\<close>

function interruptible_sleep :: "rat \<Rightarrow> rat \<Rightarrow> rat \<Rightarrow> rat \<Rightarrow> rat" where
  "interruptible_sleep T total_seconds slept now =
     (if slept < total_seconds then
        if T \<le> now then now
        else interruptible_sleep T total_seconds (slept + 1 / 10) (now + 1 / 10)
      else now)"
  by pat_completeness auto
termination
proof (relation "measure (\<lambda>(T, total_seconds, slept, now). nat \<lceil>(total_seconds - slept) * 10\<rceil>)")
  show "wf (measure (\<lambda>(T, total_seconds, slept, now). nat \<lceil>(total_seconds - slept) * 10\<rceil>))"
    by simp
next
  fix T total_seconds slept now :: rat
  assume lt: "slept < total_seconds"
  have pos: "0 < \<lceil>(total_seconds - slept) * 10\<rceil>" using lt by simp
  have "(total_seconds - (slept + 1 / 10)) * 10 = (total_seconds - slept) * 10 - 1"
    by (simp add: algebra_simps)
  then have "\<lceil>(total_seconds - (slept + 1 / 10)) * 10\<rceil> = \<lceil>(total_seconds - slept) * 10\<rceil> - 1"
    by (simp only: ceiling_diff_one)
  then have "\<lceil>(total_seconds - (slept + 1 / 10)) * 10\<rceil> < \<lceil>(total_seconds - slept) * 10\<rceil>"
    by linarith
  with pos show "((T, total_seconds, slept + 1 / 10, now + 1 / 10), (T, total_seconds, slept, now))
        \<in> measure (\<lambda>(T, total_seconds, slept, now). nat \<lceil>(total_seconds - slept) * 10\<rceil>)"
    by simp
qed

declare interruptible_sleep.simps [simp del]

text \<open>
  The same two methods in \<^verbatim>\<open>Integrated_Version7.py\<close> (751-757 and 306-313),
  where the interval is \<^verbatim>\<open>0.2\<close>.
\<close>

function wait_until_v7 :: "rat \<Rightarrow> rat \<Rightarrow> rat \<Rightarrow> rat" where
  "wait_until_v7 T target_dt now =
     (if now < target_dt then
        (let delta = target_dt - now;
             interval = min (1 / 5) delta
         in if T \<le> now \<or> delta \<le> 0 then now
            else wait_until_v7 T target_dt (now + interval))
      else now)"
  by pat_completeness auto
termination
proof (relation "measure (\<lambda>(T, target_dt, now). nat \<lceil>(target_dt - now) * 5\<rceil>)")
  show "wf (measure (\<lambda>(T, target_dt, now). nat \<lceil>(target_dt - now) * 5\<rceil>))"
    by simp
next
  fix T target_dt now delta interval :: rat
  assume lt: "now < target_dt" and d: "delta = target_dt - now"
    and i: "interval = min (1 / 5) delta"
  have pos: "0 < \<lceil>(target_dt - now) * 5\<rceil>" using lt by simp
  have "\<lceil>(target_dt - (now + interval)) * 5\<rceil> < \<lceil>(target_dt - now) * 5\<rceil>"
  proof (cases "delta \<le> 1 / 5")
    case True
    with i d have "target_dt - (now + interval) = 0" by (simp add: min_def)
    with pos show ?thesis by simp
  next
    case False
    with i d have "(target_dt - (now + interval)) * 5 = (target_dt - now) * 5 - 1"
      by (simp add: min_def algebra_simps)
    then have "\<lceil>(target_dt - (now + interval)) * 5\<rceil> = \<lceil>(target_dt - now) * 5\<rceil> - 1"
      by (simp only: ceiling_diff_one)
    then show ?thesis by linarith
  qed
  with pos show "((T, target_dt, now + interval), (T, target_dt, now))
        \<in> measure (\<lambda>(T, target_dt, now). nat \<lceil>(target_dt - now) * 5\<rceil>)"
    by simp
qed

declare wait_until_v7.simps [simp del]

function interruptible_sleep_v7 :: "rat \<Rightarrow> rat \<Rightarrow> rat \<Rightarrow> rat \<Rightarrow> rat" where
  "interruptible_sleep_v7 T total_seconds slept now =
     (if slept < total_seconds then
        if T \<le> now then now
        else interruptible_sleep_v7 T total_seconds (slept + 1 / 5) (now + 1 / 5)
      else now)"
  by pat_completeness auto
termination
proof (relation "measure (\<lambda>(T, total_seconds, slept, now). nat \<lceil>(total_seconds - slept) * 5\<rceil>)")
  show "wf (measure (\<lambda>(T, total_seconds, slept, now). nat \<lceil>(total_seconds - slept) * 5\<rceil>))"
    by simp
next
  fix T total_seconds slept now :: rat
  assume lt: "slept < total_seconds"
  have pos: "0 < \<lceil>(total_seconds - slept) * 5\<rceil>" using lt by simp
  have "(total_seconds - (slept + 1 / 5)) * 5 = (total_seconds - slept) * 5 - 1"
    by (simp add: algebra_simps)
  then have "\<lceil>(total_seconds - (slept + 1 / 5)) * 5\<rceil> = \<lceil>(total_seconds - slept) * 5\<rceil> - 1"
    by (simp only: ceiling_diff_one)
  then have "\<lceil>(total_seconds - (slept + 1 / 5)) * 5\<rceil> < \<lceil>(total_seconds - slept) * 5\<rceil>"
    by linarith
  with pos show "((T, total_seconds, slept + 1 / 5, now + 1 / 5), (T, total_seconds, slept, now))
        \<in> measure (\<lambda>(T, total_seconds, slept, now). nat \<lceil>(total_seconds - slept) * 5\<rceil>)"
    by simp
qed

declare interruptible_sleep_v7.simps [simp del]

text \<open>
  The wait for a manual captcha entry in \<^verbatim>\<open>login\<close> (\<^verbatim>\<open>Integrated.py\<close> 1373-1380;
  in \<^verbatim>\<open>Integrated_Version7.py\<close> 356-370 with a sleep of 2 seconds):
  \<^verbatim>\<open>while tm.time() - start < CAPTCHA_FILL_WAIT\<close>, a probe for the dashboard with a
  timeout of 2 seconds, then \<^verbatim>\<open>tm.sleep(1)\<close>. The loop tests no flag, so the
  function has no cancellation time to look at. \<open>dashboard\<close> is the time at which
  the dashboard appears, if it does; the result is the value returned and the
  time of the return.
\<close>

function captcha_wait :: "rat \<Rightarrow> rat option \<Rightarrow> rat \<Rightarrow> rat \<Rightarrow> bool \<times> rat" where
  "captcha_wait fill_wait dashboard start now =
     (if now - start < fill_wait then
        (case dashboard of
           Some shown \<Rightarrow>
             if shown \<le> now + 2 then (True, max now shown)
             else captcha_wait fill_wait dashboard start (now + 2 + 1)
         | None \<Rightarrow> captcha_wait fill_wait dashboard start (now + 2 + 1))
      else (False, now))"
  by pat_completeness auto
termination
proof (relation "measure (\<lambda>(fill_wait, dashboard, start, now). nat \<lceil>fill_wait - (now - start)\<rceil>)")
  show "wf (measure (\<lambda>(fill_wait, dashboard, start, now). nat \<lceil>fill_wait - (now - start)\<rceil>))"
    by simp
next
  fix fill_wait start now :: rat and dashboard :: "rat option"
  assume lt: "now - start < fill_wait"
  have pos: "0 < \<lceil>fill_wait - (now - start)\<rceil>" using lt by simp
  have "fill_wait - (now + 2 + 1 - start) = fill_wait - (now - start) - 3" by simp
  then have "\<lceil>fill_wait - (now + 2 + 1 - start)\<rceil> = \<lceil>fill_wait - (now - start)\<rceil> - 3"
    by (simp only: ceiling_diff_numeral)
  then have "\<lceil>fill_wait - (now + 2 + 1 - start)\<rceil> < \<lceil>fill_wait - (now - start)\<rceil>"
    by linarith
  with pos show "((fill_wait, dashboard, start, now + 2 + 1), (fill_wait, dashboard, start, now))
        \<in> measure (\<lambda>(fill_wait, dashboard, start, now). nat \<lceil>fill_wait - (now - start)\<rceil>)"
    by simp
next
  fix fill_wait start now shown :: rat and dashboard :: "rat option"
  assume lt: "now - start < fill_wait"
  have pos: "0 < \<lceil>fill_wait - (now - start)\<rceil>" using lt by simp
  have "fill_wait - (now + 2 + 1 - start) = fill_wait - (now - start) - 3" by simp
  then have "\<lceil>fill_wait - (now + 2 + 1 - start)\<rceil> = \<lceil>fill_wait - (now - start)\<rceil> - 3"
    by (simp only: ceiling_diff_numeral)
  then have "\<lceil>fill_wait - (now + 2 + 1 - start)\<rceil> < \<lceil>fill_wait - (now - start)\<rceil>"
    by linarith
  with pos show "((fill_wait, dashboard, start, now + 2 + 1), (fill_wait, dashboard, start, now))
        \<in> measure (\<lambda>(fill_wait, dashboard, start, now). nat \<lceil>fill_wait - (now - start)\<rceil>)"
    by simp
qed

declare captcha_wait.simps [simp del]

section \<open>Example environments\<close>

text \<open>The page of the end-to-end scenarios: pre-close 100.0, circuit 10 percent.\<close>

definition page_high_108 :: env where
  "page_high_108 =
     \<lparr>circuit_limit_percentage = 10, today = ''2025-07-01'',
      page_pre_close = Some 100, page_high = Some 108, price_input_ok = True\<rparr>"

definition page_high_95 :: env where
  "page_high_95 =
     \<lparr>circuit_limit_percentage = 10, today = ''2025-07-01'',
      page_pre_close = Some 100, page_high = Some 95, price_input_ok = True\<rparr>"

text \<open>A session high of 95.5: the candidate 97.41 is floored to 97.4.\<close>

definition page_high_95_5 :: env where
  "page_high_95_5 =
     \<lparr>circuit_limit_percentage = 10, today = ''2025-07-01'',
      page_pre_close = Some 100, page_high = Some (191 / 2), price_input_ok = True\<rparr>"


text \<open>The next day, with a pre-close of 110.0 on the page.\<close>

definition page_next_day :: env where
  "page_next_day =
     \<lparr>circuit_limit_percentage = 10, today = ''2025-07-02'',
      page_pre_close = Some 110, page_high = Some 95, price_input_ok = True\<rparr>"

text \<open>A page on which the pre-close price cannot be read.\<close>

definition page_no_pre_close :: env where
  "page_no_pre_close =
     \<lparr>circuit_limit_percentage = 10, today = ''2025-07-01'',
      page_pre_close = None, page_high = None, price_input_ok = True\<rparr>"

text \<open>A click that is followed by no success message, and one that is.\<close>

definition plain_click :: tick where
  "plain_click =
     \<lparr>cancel_at_top = False, cancel_after_wait = False, outcome = Click_no_success,
      click_time_ns = 1000000, response_time_ns = 2234567, now_iso = ''2025-07-01T11:00:00'',
      log_write_ok = True\<rparr>"

definition winning_click :: tick where
  "winning_click = plain_click\<lparr>outcome := Click_success\<rparr>"

text \<open>No success message ever; a success message at the third target.\<close>

definition never_success :: "nat \<Rightarrow> tick" where
  "never_success i = plain_click"

definition success_at_third :: "nat \<Rightarrow> tick" where
  "success_at_third i = (if i = 2 then winning_click else plain_click)"

text \<open>
  The same, but the latency log cannot be written at the third target; the
  success message is still on the page at the fourth.
\<close>

definition log_error_at_third :: "nat \<Rightarrow> tick" where
  "log_error_at_third i =
     (if i = 2 then winning_click\<lparr>log_write_ok := False\<rparr>
      else if i = 3 then winning_click
      else plain_click)"

text \<open>The profiler with both marks set, 1.234567 milliseconds apart.\<close>

definition both_marks :: profiler where
  "both_marks = \<lparr>boundary_order_time = Some 1000000, server_response_time = Some 2234567\<rparr>"

text \<open>A boundary run in which every check passes and the boundary is reached.\<close>

definition clear_form :: form_env where
  "clear_form =
     \<lparr>form_refresh_requested = False, form_active = True, form_session_valid = True,
      form_fields_ok = True\<rparr>"

definition clear_run :: sched_env where
  "clear_run =
     \<lparr>active_after_wait = True, session_valid = True, form = clear_form,
      fine_wait = [\<lparr>wait_refresh_requested = False, wait_active = True,
                    wait_delta_positive = True\<rparr>]\<rparr>"

definition clear_place :: place_env where
  "clear_place =
     \<lparr>place_refresh_requested = False, place_active = True, place_session_valid = True,
      place_form = clear_form, is_pre_open_hours = True\<rparr>"

text \<open>
  The trader after a first continuous-session computation with high 108.0: the
  candidate 110.1 reaches the limit 110.0 and the circuit flag is set.
\<close>

definition after_circuit_hit :: trader where
  "after_circuit_hit = snd (fill_price_regular page_high_108 first_start)"

text \<open>The page shows a success message as soon as it has received one click.\<close>

definition success_after_first_click :: "nat \<Rightarrow> bool" where
  "success_after_first_click n = (1 \<le> n)"

section \<open>Float arithmetic\<close>







lemma round_half_even_error:
  "\<bar>of_int (round_half_even t) - t\<bar> \<le> 1 / 2"
proof -
  have "of_int \<lfloor>t\<rfloor> \<le> t" "t < of_int \<lfloor>t\<rfloor> + 1" by linarith+
  then show ?thesis
    by (auto simp: round_half_even_def Let_def)
qed











section \<open>The one-decimal floor\<close>

text \<open>
  The value of \<^verbatim>\<open>math.floor(x * 10) / 10\<close> is the float nearest to \<open>k / 10\<close>,
  where \<open>k\<close> is the greatest integer not above the float product \<^verbatim>\<open>x * 10\<close>.
\<close>

lemma floor_1dec_char:
  "\<exists>k::int. floor_1dec x = fdiv (of_int k) 10 \<and> of_int k \<le> fmul x 10 \<and> fmul x 10 < of_int k + 1"
proof -
  have "floor_1dec x = fdiv (of_int \<lfloor>fmul x 10\<rfloor>) 10" by (simp add: floor_1dec_def)
  moreover have "of_int \<lfloor>fmul x 10\<rfloor> \<le> fmul x 10" by (rule of_int_floor_le)
  moreover have "fmul x 10 < of_int \<lfloor>fmul x 10\<rfloor> + 1" by linarith
  ultimately show ?thesis by blast
qed









section \<open>The daily reset\<close>

lemma reset_idem:
  "reset_daily_limits_if_needed d (reset_daily_limits_if_needed d s)
     = reset_daily_limits_if_needed d s"
  by (simp add: reset_daily_limits_if_needed_def save_state_to_local_storage_def)

lemma reset_funpow:
  "(reset_daily_limits_if_needed d ^^ Suc n) s = reset_daily_limits_if_needed d s"
  by (induction n) (simp_all add: reset_idem)

lemma reset_same_date:
  "trading_date s = Some d \<Longrightarrow> reset_daily_limits_if_needed d s = s"
  by (simp add: reset_daily_limits_if_needed_def)

lemma reset_pre_close:
  "pre_close_price (reset_daily_limits_if_needed d s) = pre_close_price s"
  by (simp add: reset_daily_limits_if_needed_def save_state_to_local_storage_def)

lemma reset_trading_date:
  "trading_date (reset_daily_limits_if_needed d s) = Some d"
  by (simp add: reset_daily_limits_if_needed_def save_state_to_local_storage_def)

text \<open>
  Claim C7. The daily reset check is idempotent and fires once per date change:
  of \<open>n + 1\<close> calls in a row that observe the same date \<open>d\<close>, every call after the
  first leaves the state as it is, so the calls together do what the first does.
  The first call changes nothing when the stored date is \<open>d\<close>; otherwise it stores
  \<open>d\<close>, clears the circuit limit, the session price, the circuit flag, the last
  high and the circuit-order flag, keeps the other attributes, and writes the
  state file.
\<close>

theorem reset_daily_limits_once_per_date:
  "reset_daily_limits_if_needed d ((reset_daily_limits_if_needed d ^^ Suc n) s)
     = (reset_daily_limits_if_needed d ^^ Suc n) s
   \<and> (reset_daily_limits_if_needed d ^^ Suc n) s = reset_daily_limits_if_needed d s
   \<and> (trading_date s = Some d \<longrightarrow> reset_daily_limits_if_needed d s = s)
   \<and> (trading_date s \<noteq> Some d \<longrightarrow>
        (let s' = reset_daily_limits_if_needed d s in
           trading_date s' = Some d
         \<and> circuit_limit_price_for_date s' = None
         \<and> regular_session_price_for_date s' = None
         \<and> \<not> circuit_hit_for_date s'
         \<and> last_known_high s' = None
         \<and> \<not> last_order_at_circuit s'
         \<and> pre_close_price s' = pre_close_price s
         \<and> last_transaction_id s' = last_transaction_id s
         \<and> last_known_price s' = last_known_price s
         \<and> last_known_qty s' = last_known_qty s
         \<and> successful_orders s' = successful_orders s
         \<and> bot_state_txt s' = Some (file_of s')))"
proof -
  have later: "reset_daily_limits_if_needed d ((reset_daily_limits_if_needed d ^^ Suc n) s)
                 = (reset_daily_limits_if_needed d ^^ Suc n) s"
    by (simp only: reset_funpow reset_idem)
  have first: "trading_date s \<noteq> Some d \<longrightarrow>
        (let s' = reset_daily_limits_if_needed d s in
           trading_date s' = Some d
         \<and> circuit_limit_price_for_date s' = None
         \<and> regular_session_price_for_date s' = None
         \<and> \<not> circuit_hit_for_date s'
         \<and> last_known_high s' = None
         \<and> \<not> last_order_at_circuit s'
         \<and> pre_close_price s' = pre_close_price s
         \<and> last_transaction_id s' = last_transaction_id s
         \<and> last_known_price s' = last_known_price s
         \<and> last_known_qty s' = last_known_qty s
         \<and> successful_orders s' = successful_orders s
         \<and> bot_state_txt s' = Some (file_of s'))"
    by (simp add: reset_daily_limits_if_needed_def save_state_to_local_storage_def
        file_of_def Let_def)
  from later reset_funpow [where d = d and n = n and s = s]
    reset_same_date [where s = s and d = d] first show ?thesis
    by blast
qed

theorem reset_daily_limits_once_per_date_witness:
  "trading_date first_start \<noteq> Some ''2025-07-01''
   \<and> (reset_daily_limits_if_needed ''2025-07-01'' ^^ Suc 2) first_start
       = reset_daily_limits_if_needed ''2025-07-01'' first_start
   \<and> trading_date (reset_daily_limits_if_needed ''2025-07-01'' first_start)
       = Some ''2025-07-01''
   \<and> trading_date (reset_daily_limits_if_needed ''2025-07-01'' first_start)
       \<noteq> trading_date first_start
   \<and> reset_daily_limits_if_needed ''2025-07-01''
        (reset_daily_limits_if_needed ''2025-07-01'' first_start)
       = reset_daily_limits_if_needed ''2025-07-01'' first_start"
  using reset_daily_limits_once_per_date
      [where d = "''2025-07-01''" and n = 2 and s = first_start]
    reset_daily_limits_once_per_date
      [where d = "''2025-07-01''" and n = 0
         and s = "reset_daily_limits_if_needed ''2025-07-01'' first_start"]
  by (simp add: first_start_def Let_def)

section \<open>The latency profiler's flush\<close>

lemma format_3f_near: "\<bar>format_3f v - v\<bar> \<le> 1 / 2000"
proof -
  have "format_3f v - v = (of_int (round_half_even (v * 1000)) - v * 1000) / 1000"
    by (simp add: format_3f_def diff_divide_distrib)
  then have "\<bar>format_3f v - v\<bar> = \<bar>(of_int (round_half_even (v * 1000)) - v * 1000) / 1000\<bar>"
    by (simp only:)
  also have "\<dots> = \<bar>of_int (round_half_even (v * 1000)) - v * 1000\<bar> / 1000"
    by (simp only: abs_divide; simp)
  also have "\<dots> \<le> (1 / 2) / 1000"
    using round_half_even_error [of "v * 1000"] by (intro divide_right_mono) simp_all
  finally show ?thesis by simp
qed

lemma profiler_record_unset:
  assumes "\<not> (mark_set (boundary_order_time p) \<and> mark_set (server_response_time p))"
  shows "profiler_record ok now x p logfile = (Inr (), profiler_reset p, logfile)"
  using assms by (auto simp: profiler_record_def mark_set_def split: option.splits)

lemma profiler_record_set:
  assumes "boundary_order_time p = Some b" and "server_response_time p = Some r"
    and "b \<noteq> 0" and "r \<noteq> 0"
  shows "profiler_record True now x p logfile
           = (Inr (), profiler_reset p,
              logfile @ [\<lparr>logged_at = now,
                           latency_ms = format_3f (fdiv (double (of_int (r - b))) 1000000),
                           extra_info = x\<rparr>])"
    and "profiler_record False now x p logfile = (Inl OSError, p, logfile)"
  using assms by (simp_all add: profiler_record_def Let_def)

lemma profiler_record_returned:
  assumes "fst (profiler_record ok now x p logfile) = Inr u"
  shows "fst (snd (profiler_record ok now x p logfile)) = profiler_reset p"
  using assms
  by (auto simp: profiler_record_def Let_def split: option.splits if_splits)

lemma profiler_record_length:
  "length (snd (snd (profiler_record ok now x p logfile))) \<le> length logfile + 1"
  by (simp add: profiler_record_def Let_def split: option.splits)

lemma profiler_record_raised:
  assumes "fst (profiler_record ok now x p logfile) = Inl err"
  shows "snd (profiler_record ok now x p logfile) = (p, logfile)"
  using assms
  by (auto simp: profiler_record_def Let_def split: option.splits if_splits)

lemma latency_1_235:
  "format_3f (fdiv (double (of_int (2234567 - 1000000))) 1000000) = 247 / 200"
  by code_simp

text \<open>
  Claim C9, as far as it holds. A flush (\<^verbatim>\<open>LatencyProfiler.record\<close>) with a mark
  unset appends nothing to the log, resets both marks and returns, whether the log
  file can be written or not. The source tests the marks by their truth value, so
  a mark that is \<^verbatim>\<open>None\<close> or the reading 0 counts as unset. With both marks set
  and a log file that can be written, the flush appends exactly one line and
  resets both marks; the line holds what \<^verbatim>\<open>{latency_ms:.3f}\<close> prints, the float
  \<^verbatim>\<open>(end - start) / 1e6\<close> rounded to three decimals, a number of thousandths
  within half a thousandth of that float. Every flush that returns leaves both
  marks unset.
\<close>

theorem profiler_record_flush:
  "(\<not> (mark_set (boundary_order_time p) \<and> mark_set (server_response_time p))
      \<longrightarrow> profiler_record ok now x p logfile = (Inr (), profiler_reset p, logfile))
   \<and> (boundary_order_time p = Some b \<and> server_response_time p = Some r \<and> b \<noteq> 0 \<and> r \<noteq> 0
      \<longrightarrow> profiler_record True now x p logfile
            = (Inr (), profiler_reset p,
               logfile @ [\<lparr>logged_at = now,
                            latency_ms = format_3f (fdiv (double (of_int (r - b))) 1000000),
                            extra_info = x\<rparr>]))
   \<and> (fst (profiler_record ok now x p logfile) = Inr ()
      \<longrightarrow> boundary_order_time (fst (snd (profiler_record ok now x p logfile))) = None
          \<and> server_response_time (fst (snd (profiler_record ok now x p logfile))) = None)
   \<and> format_3f v = of_int (round_half_even (v * 1000)) / 1000
   \<and> \<bar>format_3f v - v\<bar> \<le> 1 / 2000"
proof -
  have a: "\<not> (mark_set (boundary_order_time p) \<and> mark_set (server_response_time p))
      \<longrightarrow> profiler_record ok now x p logfile = (Inr (), profiler_reset p, logfile)"
    by (simp add: profiler_record_unset)
  have b: "boundary_order_time p = Some b \<and> server_response_time p = Some r \<and> b \<noteq> 0 \<and> r \<noteq> 0
      \<longrightarrow> profiler_record True now x p logfile
            = (Inr (), profiler_reset p,
               logfile @ [\<lparr>logged_at = now,
                            latency_ms = format_3f (fdiv (double (of_int (r - b))) 1000000),
                            extra_info = x\<rparr>])"
    by (simp add: profiler_record_set)
  have c: "fst (profiler_record ok now x p logfile) = Inr ()
      \<longrightarrow> boundary_order_time (fst (snd (profiler_record ok now x p logfile))) = None
          \<and> server_response_time (fst (snd (profiler_record ok now x p logfile))) = None"
    by (simp add: profiler_record_returned profiler_reset_def)
  have d: "format_3f v = of_int (round_half_even (v * 1000)) / 1000"
    by (simp add: format_3f_def)
  from a b c d format_3f_near [of v] show ?thesis by (intro conjI)
qed

theorem profiler_record_flush_witness:
  "\<not> mark_set (server_response_time
                 \<lparr>boundary_order_time = Some 1000000, server_response_time = None\<rparr>)
   \<and> profiler_record False ''t'' ''x''
         \<lparr>boundary_order_time = Some 1000000, server_response_time = None\<rparr> []
       = (Inr (), \<lparr>boundary_order_time = None, server_response_time = None\<rparr>, [])
   \<and> boundary_order_time both_marks = Some 1000000
   \<and> server_response_time both_marks = Some 2234567
   \<and> (1000000::int) \<noteq> 0 \<and> (2234567::int) \<noteq> 0
   \<and> profiler_record True ''t'' ''x'' both_marks []
       = (Inr (), \<lparr>boundary_order_time = None, server_response_time = None\<rparr>,
          [\<lparr>logged_at = ''t'', latency_ms = 247 / 200, extra_info = ''x''\<rparr>])
   \<and> fst (profiler_record True ''t'' ''x'' both_marks []) = Inr ()
   \<and> boundary_order_time (fst (snd (profiler_record True ''t'' ''x'' both_marks []))) = None"
proof -
  have m: "boundary_order_time both_marks = Some 1000000"
    "server_response_time both_marks = Some 2234567"
    by (simp_all add: both_marks_def)
  have r: "profiler_reset both_marks = \<lparr>boundary_order_time = None, server_response_time = None\<rparr>"
    by (simp add: both_marks_def profiler_reset_def)
  from profiler_record_flush
      [where p = "\<lparr>boundary_order_time = Some 1000000, server_response_time = None\<rparr>"
         and ok = False and now = "''t''" and x = "''x''" and logfile = "[]"]
    profiler_record_flush
      [where p = both_marks and ok = True and now = "''t''" and x = "''x''" and logfile = "[]"
         and b = 1000000 and r = 2234567]
    m r latency_1_235
  show ?thesis
    by (simp add: mark_set_def profiler_reset_def)
qed

text \<open>
  Against the claim: a flush with both marks set whose log file cannot be
  written raises and appends nothing, and the marks are still set after it, since
  \<^verbatim>\<open>self._reset()\<close> stands after the \<^verbatim>\<open>with\<close> block and under no \<^verbatim>\<open>finally\<close>;
  and the line written otherwise holds 1.235 for the marks 1000000 and 2234567,
  not the latency 1.234567.
\<close>

theorem profiler_record_keeps_marks_on_write_error:
  "mark_set (boundary_order_time both_marks) \<and> mark_set (server_response_time both_marks)
   \<and> profiler_record False ''t'' ''x'' both_marks [] = (Inl OSError, both_marks, [])
   \<and> boundary_order_time (fst (snd (profiler_record False ''t'' ''x'' both_marks [])))
       = Some 1000000
   \<and> server_response_time (fst (snd (profiler_record False ''t'' ''x'' both_marks [])))
       = Some 2234567
   \<and> map latency_ms (snd (snd (profiler_record True ''t'' ''x'' both_marks []))) = [247 / 200]
   \<and> (247 / 200 :: rat) \<noteq> of_int (2234567 - 1000000) / 1000000"
proof -
  have m: "boundary_order_time both_marks = Some 1000000"
    "server_response_time both_marks = Some 2234567"
    by (simp_all add: both_marks_def)
  note s = profiler_record_set [OF m, of "''t''" "''x''" "[]"]
  from m s latency_1_235 show ?thesis
    by (simp add: mark_set_def)
qed

section \<open>The continuous-session price\<close>

lemma decision_limit:
  "circuit_limit_price_for_date (snd (regular_price_decision e L s))
     = circuit_limit_price_for_date s"
  by (simp add: regular_price_decision_def save_state_to_local_storage_def Let_def)

lemma decision_flag_false:
  assumes "\<not> circuit_hit_for_date s"
  shows "fst (regular_price_decision e L s) =
           (let cand = (case page_high e of Some h \<Rightarrow> floor_1dec (fmul h (double (51 / 50))) | None \<Rightarrow> L);
                used = (if L \<le> cand then L else cand)
            in (if price_input_ok e then Some used else None, L \<le> cand))"
    and "regular_session_price_for_date (snd (regular_price_decision e L s)) =
           (let cand = (case page_high e of Some h \<Rightarrow> floor_1dec (fmul h (double (51 / 50))) | None \<Rightarrow> L)
            in Some (if L \<le> cand then L else cand))"
    and "circuit_hit_for_date (snd (regular_price_decision e L s)) =
           (let cand = (case page_high e of Some h \<Rightarrow> floor_1dec (fmul h (double (51 / 50))) | None \<Rightarrow> L)
            in L \<le> cand)"
  using assms
  by (simp_all add: regular_price_decision_def Let_def save_state_to_local_storage_def)

lemma decision_flag_true:
  "circuit_hit_for_date s \<Longrightarrow>
   regular_price_decision e L s =
     ((if price_input_ok e then Some L else None, True),
      save_state_to_local_storage (s\<lparr>regular_session_price_for_date := Some L\<rparr>))"
  by (simp add: regular_price_decision_def Let_def)


lemma get_pre_close_cached:
  "pre_close_price s = Some p \<Longrightarrow> get_pre_close_price e s = (Some p, s)"
  by (simp add: get_pre_close_price_def)

lemma get_pre_close_reset:
  "fst (get_pre_close_price e (reset_daily_limits_if_needed d s))
     = fst (get_pre_close_price e s)"
  by (simp add: get_pre_close_price_def reset_pre_close split: option.splits)

lemma get_pre_close_fields:
  "circuit_limit_price_for_date (snd (get_pre_close_price e s)) = circuit_limit_price_for_date s"
  "trading_date (snd (get_pre_close_price e s)) = trading_date s"
  "circuit_hit_for_date (snd (get_pre_close_price e s)) = circuit_hit_for_date s"
  by (simp_all add: get_pre_close_price_def split: option.splits)

text \<open>
  The first computation for a date: the call is the decision on the state in
  which the limit has just been stored.
\<close>

lemma first_use:
  assumes unset: "trading_date s \<noteq> Some (today e) \<or> circuit_limit_price_for_date s = None"
    and pre: "fst (get_pre_close_price e s) = Some p"
  shows "let L = floor_1dec (fmul p (fadd 1 (fdiv (circuit_limit_percentage e) 100)))
         in fill_price_regular e s =
              regular_price_decision e L
                (save_state_to_local_storage
                  ((snd (get_pre_close_price e (reset_daily_limits_if_needed (today e) s)))
                    \<lparr>circuit_limit_price_for_date := Some L,
                     circuit_hit_for_date := False,
                     last_order_at_circuit := False\<rparr>))"
proof -
  let ?s1 = "reset_daily_limits_if_needed (today e) s"
  from unset have none: "circuit_limit_price_for_date ?s1 = None"
    by (auto simp: reset_daily_limits_if_needed_def save_state_to_local_storage_def)
  from pre have "fst (get_pre_close_price e ?s1) = Some p"
    by (simp add: get_pre_close_reset)
  then obtain s2 where "get_pre_close_price e ?s1 = (Some p, s2)"
    by (cases "get_pre_close_price e ?s1") simp
  with none show ?thesis
    by (simp add: fill_price_regular_def Let_def)
qed

lemma first_use_limit:
  assumes "trading_date s \<noteq> Some (today e) \<or> circuit_limit_price_for_date s = None"
    and "fst (get_pre_close_price e s) = Some p"
  shows "circuit_limit_price_for_date (snd (fill_price_regular e s))
           = Some (floor_1dec (fmul p (fadd 1 (fdiv (circuit_limit_percentage e) 100))))"
  using first_use [OF assms]
  by (simp add: Let_def decision_limit save_state_to_local_storage_def)

text \<open>The floats of the end-to-end scenarios.\<close>

lemma limit_100_at_10: "floor_1dec (fmul 100 (fadd 1 (fdiv 10 100))) = 110"
  by code_simp



lemma candidate_108: "floor_1dec (fmul 108 (double (51 / 50))) = double (1101 / 10)"
  by code_simp

lemma candidate_95: "floor_1dec (fmul 95 (double (51 / 50))) = double (969 / 10)"
  by code_simp

lemma candidate_95_5: "floor_1dec (fmul (191 / 2) (double (51 / 50))) = double (487 / 5)"
  by code_simp

lemma floats_and_limit_110:
  "110 \<le> double (1101 / 10)" "\<not> 110 \<le> double (969 / 10)" "\<not> 110 \<le> double (487 / 5)"
  by code_simp+

lemma floor_of_97_41:
  "fdiv (of_int 974) 10 = double (487 / 5)"
  "of_int 974 \<le> fmul (fmul (191 / 2) (double (51 / 50))) 10"
  "fmul (fmul (191 / 2) (double (51 / 50))) 10 < of_int 974 + 1"
  "fmul (191 / 2) (double (51 / 50)) \<noteq> double (487 / 5)"
  by code_simp+

text \<open>
  Claim C1. Take a call of \<^verbatim>\<open>fill_price_regular\<close> that works with the circuit limit
  \<open>L\<close> (the limit the state holds when the call returns; the early return on a
  missing pre-close price holds none) and whose circuit flag is false when the
  price is decided: the stored flag is false, or the date has changed, or the
  limit is computed anew, both of which clear the flag. The candidate is
  \<^verbatim>\<open>math.floor(high * 1.02 * 10) / 10\<close> in float arithmetic when the session high
  can be read, and \<open>L\<close> when it cannot. It is the floor to one decimal: the float
  nearest to \<open>k / 10\<close>, for the greatest integer \<open>k\<close> not above ten times the
  float product \<^verbatim>\<open>high * 1.02\<close>. If the candidate is at least \<open>L\<close>, the price used
  is \<open>L\<close>, the flag becomes true and \<open>at_circuit\<close> is true; otherwise the price
  used is the candidate, the flag stays false and \<open>at_circuit\<close> is false. The price
  returned is the price used, or \<^verbatim>\<open>None\<close> when the price input cannot be filled.
\<close>

theorem fill_price_regular_flag_false:
  assumes lim: "circuit_limit_price_for_date (snd (fill_price_regular e s)) = Some L"
    and flag: "\<not> circuit_hit_for_date s \<or> trading_date s \<noteq> Some (today e)
               \<or> circuit_limit_price_for_date s = None"
  shows "let candidate = (case page_high e of
                            Some high \<Rightarrow> floor_1dec (fmul high (double (51 / 50)))
                          | None \<Rightarrow> L);
             used = (if candidate \<ge> L then L else candidate);
             result = fill_price_regular e s
         in regular_session_price_for_date (snd result) = Some used
          \<and> circuit_hit_for_date (snd result) = (candidate \<ge> L)
          \<and> snd (fst result) = (candidate \<ge> L)
          \<and> fst (fst result) = (if price_input_ok e then Some used else None)
          \<and> (\<forall>high. page_high e = Some high \<longrightarrow>
                (\<exists>k::int. candidate = fdiv (of_int k) 10
                    \<and> of_int k \<le> fmul (fmul high (double (51 / 50))) 10
                    \<and> fmul (fmul high (double (51 / 50))) 10 < of_int k + 1))"
proof -
  let ?s1 = "reset_daily_limits_if_needed (today e) s"
  let ?cand = "case page_high e of
                 Some high \<Rightarrow> floor_1dec (fmul high (double (51 / 50)))
               | None \<Rightarrow> L"
  have floor: "\<forall>high. page_high e = Some high \<longrightarrow>
                (\<exists>k::int. ?cand = fdiv (of_int k) 10
                    \<and> of_int k \<le> fmul (fmul high (double (51 / 50))) 10
                    \<and> fmul (fmul high (double (51 / 50))) 10 < of_int k + 1)"
    by (simp add: floor_1dec_char)
  have main: "regular_session_price_for_date (snd (fill_price_regular e s))
                = Some (if ?cand \<ge> L then L else ?cand)
          \<and> circuit_hit_for_date (snd (fill_price_regular e s)) = (?cand \<ge> L)
          \<and> snd (fst (fill_price_regular e s)) = (?cand \<ge> L)
          \<and> fst (fst (fill_price_regular e s))
                = (if price_input_ok e then Some (if ?cand \<ge> L then L else ?cand) else None)"
  proof (cases "circuit_limit_price_for_date ?s1")
    case (Some l)
    then have same: "trading_date s = Some (today e)" "?s1 = s"
      by (auto simp: reset_daily_limits_if_needed_def save_state_to_local_storage_def
          split: if_splits)
    with Some flag have nohit: "\<not> circuit_hit_for_date s" by auto
    from Some same have run: "fill_price_regular e s = regular_price_decision e l s"
      by (simp add: fill_price_regular_def)
    with lim Some same have "l = L" by (simp add: decision_limit)
    with run nohit show ?thesis
      by (simp add: decision_flag_false Let_def save_state_to_local_storage_def)
  next
    case None
    show ?thesis
    proof (cases "get_pre_close_price e ?s1")
      case (Pair v s2)
      show ?thesis
      proof (cases v)
        case None2: None
        with None Pair have "fill_price_regular e s = ((None, False), s2)"
          by (simp add: fill_price_regular_def)
        moreover from Pair None have "circuit_limit_price_for_date s2 = None"
          by (auto simp: get_pre_close_price_def split: option.splits)
        ultimately show ?thesis using lim by simp
      next
        case (Some p)
        let ?L = "floor_1dec (fmul p (fadd 1 (fdiv (circuit_limit_percentage e) 100)))"
        let ?s3 = "save_state_to_local_storage
                     (s2\<lparr>circuit_limit_price_for_date := Some ?L,
                         circuit_hit_for_date := False,
                         last_order_at_circuit := False\<rparr>)"
        from None Pair Some have run: "fill_price_regular e s = regular_price_decision e ?L ?s3"
          by (simp add: fill_price_regular_def Let_def)
        have "\<not> circuit_hit_for_date ?s3"
          by (simp add: save_state_to_local_storage_def)
        moreover from run lim have "?L = L"
          by (simp add: decision_limit save_state_to_local_storage_def)
        ultimately show ?thesis using run
          by (simp add: decision_flag_false Let_def save_state_to_local_storage_def)
      qed
    qed
  qed
  from main floor show ?thesis
    by (simp only: Let_def; blast)
qed

theorem fill_price_regular_flag_false_witness:
  "circuit_limit_price_for_date (snd (fill_price_regular page_high_95_5 first_start)) = Some 110
   \<and> \<not> circuit_hit_for_date first_start
   \<and> page_high page_high_95_5 = Some (191 / 2)
   \<and> fmul (191 / 2) (double (51 / 50)) \<noteq> double (487 / 5)
   \<and> floor_1dec (fmul (191 / 2) (double (51 / 50))) = double (487 / 5)
   \<and> \<not> 110 \<le> double (487 / 5)
   \<and> regular_session_price_for_date (snd (fill_price_regular page_high_95_5 first_start))
       = Some (double (487 / 5))
   \<and> \<not> circuit_hit_for_date (snd (fill_price_regular page_high_95_5 first_start))
   \<and> fst (fill_price_regular page_high_95_5 first_start) = (Some (double (487 / 5)), False)"
proof -
  have pre: "fst (get_pre_close_price page_high_95_5 first_start) = Some 100"
    by (simp add: get_pre_close_price_def first_start_def page_high_95_5_def)
  have none: "circuit_limit_price_for_date first_start = None"
    by (simp add: first_start_def)
  have pct: "circuit_limit_percentage page_high_95_5 = 10"
    by (simp add: page_high_95_5_def)
  have h1: "circuit_limit_price_for_date (snd (fill_price_regular page_high_95_5 first_start))
              = Some 110"
    using first_use_limit [OF disjI2 [OF none] pre] by (simp add: pct limit_100_at_10)
  have h2: "\<not> circuit_hit_for_date first_start"
    by (simp add: first_start_def)
  have ph: "page_high page_high_95_5 = Some (191 / 2)" "price_input_ok page_high_95_5"
    by (simp_all add: page_high_95_5_def)
  from fill_price_regular_flag_false [OF h1 disjI1 [OF h2]]
  have "regular_session_price_for_date (snd (fill_price_regular page_high_95_5 first_start))
          = Some (double (487 / 5))
      \<and> \<not> circuit_hit_for_date (snd (fill_price_regular page_high_95_5 first_start))
      \<and> fst (fill_price_regular page_high_95_5 first_start) = (Some (double (487 / 5)), False)"
    by (simp add: Let_def ph candidate_95_5 floats_and_limit_110 prod_eq_iff)
  with h1 h2 ph(1) candidate_95_5 floats_and_limit_110(3) floor_of_97_41(4)
  show ?thesis by (intro conjI) simp_all
qed



section \<open>The dispatch loop stops at the first success\<close>

lemma on_success_fields:
  "pre_close_price (snd (on_success t c s)) = pre_close_price s"
  "trading_date (snd (on_success t c s)) = trading_date s"
  "circuit_limit_price_for_date (snd (on_success t c s)) = circuit_limit_price_for_date s"
  "circuit_hit_for_date (snd (on_success t c s)) = circuit_hit_for_date s"
  "regular_session_price_for_date (snd (on_success t c s)) = regular_session_price_for_date s"
  "bot_state_txt (snd (on_success t c s)) = bot_state_txt s"
  "order_log (snd (on_success t c s)) = order_log s"
  "successful_orders (snd (on_success t c s)) = successful_orders s"
  "buy_clicks (snd (on_success t c s)) = buy_clicks s"
  "last_order_at_circuit (snd (on_success t c s)) = last_order_at_circuit s"
  by (simp_all add: on_success_def Let_def case_prod_beta split: sum.splits)

text \<open>
  The four statements of a success end normally when the latency log can be
  written, and then both events are set. When they end with an exception, the
  events are as before and nothing has been appended to the log.
\<close>

lemma on_success_returns:
  assumes "log_write_ok t"
  shows "fst (on_success t c s) = Inr ()"
  using assms
  by (auto simp: on_success_def profiler_record_def Let_def case_prod_beta
      split: sum.splits option.splits)

lemma on_success_returned:
  assumes "fst (on_success t c s) = Inr u"
  shows "order_success (snd (on_success t c s))" and "stop_clicking (snd (on_success t c s))"
  using assms
  by (simp_all add: on_success_def Let_def case_prod_beta split: sum.splits)

lemma on_success_raised:
  assumes "fst (on_success t c s) = Inl err"
  shows "order_success (snd (on_success t c s)) = order_success s"
    and "stop_clicking (snd (on_success t c s)) = stop_clicking s"
    and "latency_log (snd (on_success t c s)) = latency_log s"
proof -
  let ?r = "profiler_record (log_write_ok t) (now_iso t) (''OrderClicks:'' @ string_of_nat c)
              (mark_server_response (response_time_ns t) (latency_profiler s)) (latency_log s)"
  from assms have "fst ?r = Inl err"
    by (simp add: on_success_def Let_def case_prod_beta split: sum.splits)
  then have "snd ?r = (mark_server_response (response_time_ns t) (latency_profiler s),
                       latency_log s)"
    by (rule profiler_record_raised)
  then have l: "snd (snd ?r) = latency_log s" by simp
  show "order_success (snd (on_success t c s)) = order_success s"
    and "stop_clicking (snd (on_success t c s)) = stop_clicking s"
    using assms by (simp_all add: on_success_def Let_def case_prod_beta split: sum.splits)
  from l show "latency_log (snd (on_success t c s)) = latency_log s"
    using assms by (simp add: on_success_def Let_def case_prod_beta split: sum.splits)
qed

lemma mark_first_click_fields:
  "pre_close_price (mark_first_click t g s) = pre_close_price s"
  "trading_date (mark_first_click t g s) = trading_date s"
  "circuit_limit_price_for_date (mark_first_click t g s) = circuit_limit_price_for_date s"
  "circuit_hit_for_date (mark_first_click t g s) = circuit_hit_for_date s"
  "regular_session_price_for_date (mark_first_click t g s) = regular_session_price_for_date s"
  "bot_state_txt (mark_first_click t g s) = bot_state_txt s"
  "order_log (mark_first_click t g s) = order_log s"
  "successful_orders (mark_first_click t g s) = successful_orders s"
  "buy_clicks (mark_first_click t g s) = buy_clicks s"
  "last_order_at_circuit (mark_first_click t g s) = last_order_at_circuit s"
  "order_success (mark_first_click t g s) = order_success s"
  "stop_clicking (mark_first_click t g s) = stop_clicking s"
  "latency_log (mark_first_click t g s) = latency_log s"
  by (simp_all add: mark_first_click_def)

lemma click_loop_preserves:
  assumes upd: "\<And>s n. f (s\<lparr>buy_clicks := n\<rparr>) = f s"
    and mark: "\<And>t g s. f (mark_first_click t g s) = f s"
    and succ: "\<And>t c s. f (snd (on_success t c s)) = f s"
  shows "f (snd (click_loop ev ts c g s)) = f s"
proof (induction ts arbitrary: c g s)
  case Nil
  show ?case by simp
next
  case (Cons i ts)
  show ?case
  proof (cases "order_success s \<or> stop_clicking s \<or> cancel_at_top (ev i)
                \<or> cancel_after_wait (ev i)")
    case True
    then show ?thesis by auto
  next
    case False
    let ?s1 = "mark_first_click (ev i) g (s\<lparr>buy_clicks := buy_clicks s + 1\<rparr>)"
    have s1: "f ?s1 = f s" by (simp add: upd mark)
    show ?thesis
    proof (cases "outcome (ev i)")
      case Click_success
      obtain res s2 where r: "on_success (ev i) (c + 1) ?s1 = (res, s2)"
        by (cases "on_success (ev i) (c + 1) ?s1")
      then have "f s2 = f s" using succ [of "ev i" "c + 1" ?s1] s1 by simp
      with False Click_success r show ?thesis
        by (cases res) (simp_all add: Cons.IH)
    qed (use False in \<open>simp_all add: Cons.IH upd mark\<close>)
  qed
qed

lemma click_loop_fields:
  "pre_close_price (snd (click_loop ev ts c g s)) = pre_close_price s"
  "trading_date (snd (click_loop ev ts c g s)) = trading_date s"
  "circuit_limit_price_for_date (snd (click_loop ev ts c g s)) = circuit_limit_price_for_date s"
  "circuit_hit_for_date (snd (click_loop ev ts c g s)) = circuit_hit_for_date s"
  "regular_session_price_for_date (snd (click_loop ev ts c g s))
       = regular_session_price_for_date s"
  "bot_state_txt (snd (click_loop ev ts c g s)) = bot_state_txt s"
  "order_log (snd (click_loop ev ts c g s)) = order_log s"
  "successful_orders (snd (click_loop ev ts c g s)) = successful_orders s"
  "last_order_at_circuit (snd (click_loop ev ts c g s)) = last_order_at_circuit s"
  by (rule click_loop_preserves; simp add: on_success_fields mark_first_click_fields)+

lemma on_success_log:
  "length (latency_log (snd (on_success t c s))) \<le> length (latency_log s) + 1"
  using profiler_record_length
          [of "log_write_ok t" "now_iso t" "''OrderClicks:'' @ string_of_nat c"
              "mark_server_response (response_time_ns t) (latency_profiler s)" "latency_log s"]
  by (simp add: on_success_def Let_def case_prod_beta split: sum.splits)

lemma click_loop_log:
  "length (latency_log (snd (click_loop ev ts c g s))) \<le> length (latency_log s) + 1"
proof (induction ts arbitrary: c g s)
  case Nil
  show ?case by simp
next
  case (Cons i ts)
  show ?case
  proof (cases "order_success s \<or> stop_clicking s \<or> cancel_at_top (ev i)
                \<or> cancel_after_wait (ev i)")
    case True
    then show ?thesis by auto
  next
    case False
    then have go: "\<not> order_success s" "\<not> stop_clicking s" "\<not> cancel_at_top (ev i)"
      "\<not> cancel_after_wait (ev i)"
      by simp_all
    show ?thesis
    proof (cases "outcome (ev i)")
      case No_click
      with go show ?thesis using Cons.IH [of c g s] by simp
    next
      case Click_push_error
      with go show ?thesis
        using Cons.IH [of "c + 1" g "s\<lparr>buy_clicks := buy_clicks s + 1\<rparr>"] by simp
    next
      case Click_probe_error
      with go show ?thesis
        using Cons.IH [of "c + 1" True
            "mark_first_click (ev i) g (s\<lparr>buy_clicks := buy_clicks s + 1\<rparr>)"]
        by (simp add: mark_first_click_fields)
    next
      case Click_no_success
      with go show ?thesis
        using Cons.IH [of "c + 1" True
            "mark_first_click (ev i) g (s\<lparr>buy_clicks := buy_clicks s + 1\<rparr>)"]
        by (simp add: mark_first_click_fields)
    next
      case Click_success
      let ?s1 = "mark_first_click (ev i) g (s\<lparr>buy_clicks := buy_clicks s + 1\<rparr>)"
      have s1: "latency_log ?s1 = latency_log s" by (simp add: mark_first_click_fields)
      obtain res s2 where r: "on_success (ev i) (c + 1) ?s1 = (res, s2)"
        by (cases "on_success (ev i) (c + 1) ?s1")
      show ?thesis
      proof (cases res)
        case (Inr u)
        with go Click_success r s1 on_success_log [of "ev i" "c + 1" ?s1]
        show ?thesis by simp
      next
        case (Inl err)
        with r have "fst (on_success (ev i) (c + 1) ?s1) = Inl err" by simp
        from on_success_raised(3) [OF this] r s1 have "latency_log s2 = latency_log s" by simp
        with go Click_success r Inl Cons.IH [of "c + 1" True s2]
        show ?thesis by simp
      qed
    qed
  qed
qed

lemma click_loop_first_success:
  assumes "a \<le> n" and "n < b"
    and win: "outcome (ev n) = Click_success" "log_write_ok (ev n)"
    and clear_n: "\<not> cancel_at_top (ev n)" "\<not> cancel_after_wait (ev n)"
    and before: "\<forall>j. a \<le> j \<and> j < n \<longrightarrow>
                   \<not> cancel_at_top (ev j) \<and> \<not> cancel_after_wait (ev j)
                   \<and> outcome (ev j) \<noteq> Click_success"
    and flags: "\<not> order_success s" "\<not> stop_clicking s"
  shows "fst (click_loop ev [a..<b] c g s)
           = (c + length (filter (\<lambda>j. counted (outcome (ev j))) [a..<n]) + 1, True)
         \<and> buy_clicks (snd (click_loop ev [a..<b] c g s))
           = buy_clicks s + length (filter (\<lambda>j. counted (outcome (ev j))) [a..<n]) + 1"
  using assms
proof (induction "n - a" arbitrary: a c g s)
  case 0
  then have an: "a = n" by simp
  from \<open>n < b\<close> have l: "[n..<b] = n # [Suc n..<b]" by (rule upt_conv_Cons)
  let ?s1 = "mark_first_click (ev n) g (s\<lparr>buy_clicks := buy_clicks s + 1\<rparr>)"
  obtain res s2 where r: "on_success (ev n) (c + 1) ?s1 = (res, s2)"
    by (cases "on_success (ev n) (c + 1) ?s1")
  with on_success_returns [OF win(2), of "c + 1" ?s1] have res: "res = Inr ()" by simp
  from r on_success_fields(9) [of "ev n" "c + 1" ?s1]
  have "buy_clicks s2 = buy_clicks s + 1" by (simp add: mark_first_click_fields)
  with 0 an r res show ?case
    by (simp add: l)
next
  case (Suc d)
  then have lt: "a < n" by simp
  with \<open>n < b\<close> have l: "[a..<b] = a # [Suc a..<b]" by (simp add: upt_conv_Cons)
  from lt have l2: "[a..<n] = a # [Suc a..<n]" by (simp add: upt_conv_Cons)
  from Suc.prems(7) lt have here: "\<not> cancel_at_top (ev a)" "\<not> cancel_after_wait (ev a)"
    "outcome (ev a) \<noteq> Click_success"
    by auto
  from Suc.prems(7) have later: "\<forall>j. Suc a \<le> j \<and> j < n \<longrightarrow>
                   \<not> cancel_at_top (ev j) \<and> \<not> cancel_after_wait (ev j)
                   \<and> outcome (ev j) \<noteq> Click_success"
    by auto
  from Suc.hyps(2) have d: "d = n - Suc a" by simp
  from lt have le: "Suc a \<le> n" by simp
  note IH = Suc.hyps(1) [OF d le \<open>n < b\<close> win clear_n later]
  show ?case
  proof (cases "outcome (ev a)")
    case No_click
    with here Suc.prems(8,9) IH [of s c g] show ?thesis
      by (simp add: l l2 counted_def)
  next
    case Click_push_error
    with here Suc.prems(8,9) IH [of "s\<lparr>buy_clicks := buy_clicks s + 1\<rparr>" "c + 1" g]
    show ?thesis
      by (simp add: l l2 counted_def)
  next
    case Click_probe_error
    with here Suc.prems(8,9)
      IH [of "mark_first_click (ev a) g (s\<lparr>buy_clicks := buy_clicks s + 1\<rparr>)" "c + 1" True]
    show ?thesis
      by (simp add: l l2 counted_def mark_first_click_fields)
  next
    case Click_no_success
    with here Suc.prems(8,9)
      IH [of "mark_first_click (ev a) g (s\<lparr>buy_clicks := buy_clicks s + 1\<rparr>)" "c + 1" True]
    show ?thesis
      by (simp add: l l2 counted_def mark_first_click_fields)
  next
    case Click_success
    with here show ?thesis by simp
  qed
qed

lemma click_loop_cong:
  assumes "a \<le> n" and "n < b"
    and win: "outcome (ev n) = Click_success" "log_write_ok (ev n)"
    and same: "\<forall>j. a \<le> j \<and> j \<le> n \<longrightarrow> ev' j = ev j"
  shows "click_loop ev' [a..<b] c g s = click_loop ev [a..<b] c g s"
  using assms
proof (induction "n - a" arbitrary: a c g s)
  case 0
  then have an: "a = n" by simp
  from \<open>n < b\<close> have l: "[n..<b] = n # [Suc n..<b]" by (rule upt_conv_Cons)
  from 0 an have same_n: "ev' n = ev n" by simp
  let ?s1 = "mark_first_click (ev n) g (s\<lparr>buy_clicks := buy_clicks s + 1\<rparr>)"
  obtain res s2 where r: "on_success (ev n) (c + 1) ?s1 = (res, s2)"
    by (cases "on_success (ev n) (c + 1) ?s1")
  with on_success_returns [OF win(2), of "c + 1" ?s1] have "res = Inr ()" by simp
  with an win same_n r show ?case by (simp add: l)
next
  case (Suc d)
  then have lt: "a < n" by simp
  with \<open>n < b\<close> have l: "[a..<b] = a # [Suc a..<b]" by (simp add: upt_conv_Cons)
  from Suc.prems(5) lt have here: "ev' a = ev a" by simp
  from Suc.prems(5) have later: "\<forall>j. Suc a \<le> j \<and> j \<le> n \<longrightarrow> ev' j = ev j" by auto
  from Suc.hyps(2) have d: "d = n - Suc a" by simp
  from lt have le: "Suc a \<le> n" by simp
  note IH = Suc.hyps(1) [OF d le \<open>n < b\<close> win later]
  show ?case
    by (cases "outcome (ev a)") (simp_all add: l here IH split: prod.splits sum.splits)
qed

lemma rapid_click_success_result:
  assumes "n < MAX_CLICKS"
    and win: "outcome (ev n) = Click_success" "log_write_ok (ev n)"
    and clear_n: "\<not> cancel_at_top (ev n)" "\<not> cancel_after_wait (ev n)"
    and before: "\<forall>j<n. \<not> cancel_at_top (ev j) \<and> \<not> cancel_after_wait (ev j)
                   \<and> outcome (ev j) \<noteq> Click_success"
  shows "fst (rapid_click_buy_button ev s)
           = (Suc (length (filter (\<lambda>j. counted (outcome (ev j))) [0..<n])), True)"
    and "buy_clicks (snd (rapid_click_buy_button ev s))
           = buy_clicks s + Suc (length (filter (\<lambda>j. counted (outcome (ev j))) [0..<n]))"
proof -
  let ?s0 = "s\<lparr>stop_clicking := False, order_success := False\<rparr>"
  from before have b: "\<forall>j. 0 \<le> j \<and> j < n \<longrightarrow>
                   \<not> cancel_at_top (ev j) \<and> \<not> cancel_after_wait (ev j)
                   \<and> outcome (ev j) \<noteq> Click_success"
    by simp
  have f: "\<not> order_success ?s0" "\<not> stop_clicking ?s0" by simp_all
  from click_loop_first_success [OF le0 \<open>n < MAX_CLICKS\<close> win clear_n b f, of 0 False]
  show "fst (rapid_click_buy_button ev s)
           = (Suc (length (filter (\<lambda>j. counted (outcome (ev j))) [0..<n])), True)"
    and "buy_clicks (snd (rapid_click_buy_button ev s))
           = buy_clicks s + Suc (length (filter (\<lambda>j. counted (outcome (ev j))) [0..<n]))"
    by (simp_all add: rapid_click_buy_button_def)
qed

lemma rapid_click_cong:
  assumes "n < MAX_CLICKS" and "outcome (ev n) = Click_success" and "log_write_ok (ev n)"
    and "\<forall>j\<le>n. ev' j = ev j"
  shows "rapid_click_buy_button ev' s = rapid_click_buy_button ev s"
proof -
  from assms(4) have "\<forall>j. 0 \<le> j \<and> j \<le> n \<longrightarrow> ev' j = ev j" by simp
  with assms(1,2,3) show ?thesis
    by (simp add: rapid_click_buy_button_def
        click_loop_cong [where a = 0 and n = n and ev = ev and ev' = ev'])
qed

lemma rapid_click_log:
  "length (latency_log (snd (rapid_click_buy_button ev s))) \<le> length (latency_log s) + 1"
  using click_loop_log [of ev "[0..<MAX_CLICKS]" 0 False
      "s\<lparr>stop_clicking := False, order_success := False\<rparr>"]
  by (simp add: rapid_click_buy_button_def)

lemma rapid_click_fields:
  "pre_close_price (snd (rapid_click_buy_button ev s)) = pre_close_price s"
  "trading_date (snd (rapid_click_buy_button ev s)) = trading_date s"
  "circuit_limit_price_for_date (snd (rapid_click_buy_button ev s))
     = circuit_limit_price_for_date s"
  "circuit_hit_for_date (snd (rapid_click_buy_button ev s)) = circuit_hit_for_date s"
  "regular_session_price_for_date (snd (rapid_click_buy_button ev s))
     = regular_session_price_for_date s"
  "bot_state_txt (snd (rapid_click_buy_button ev s)) = bot_state_txt s"
  "order_log (snd (rapid_click_buy_button ev s)) = order_log s"
  "successful_orders (snd (rapid_click_buy_button ev s)) = successful_orders s"
  "last_order_at_circuit (snd (rapid_click_buy_button ev s)) = last_order_at_circuit s"
  by (simp_all add: rapid_click_buy_button_def click_loop_fields)

lemma upt_head: "i < j \<Longrightarrow> [i..<j] = i # [i + 1..<j]"
  by (simp add: upt_conv_Cons)

text \<open>
  When the latency log cannot be written at the first match, the sequential loop
  does not stop there. The success message is found after the third click, the
  flush raises, the \<^verbatim>\<open>except\<close> clause swallows the exception before the two events
  are set, and the loop clicks a fourth time.
\<close>

lemma sequential_loop_clicks_after_log_error:
  "outcome (log_error_at_third 2) = Click_success
   \<and> outcome (log_error_at_third 0) = Click_no_success
   \<and> outcome (log_error_at_third 1) = Click_no_success
   \<and> fst (rapid_click_buy_button log_error_at_third first_start) = (4, True)
   \<and> buy_clicks (snd (rapid_click_buy_button log_error_at_third first_start)) = 4"
proof -
  have m: "0 < MAX_CLICKS" "1 < MAX_CLICKS" "2 < MAX_CLICKS" "3 < MAX_CLICKS"
    by (simp_all add: MAX_CLICKS_def)
  have l: "[0..<MAX_CLICKS] = 0 # 1 # 2 # 3 # [4..<MAX_CLICKS]"
    using upt_head [OF m(1)] upt_head [OF m(2)] upt_head [OF m(3)] upt_head [OF m(4)]
    by (simp add: eval_nat_numeral)
  have t: "log_error_at_third 0 = plain_click" "log_error_at_third 1 = plain_click"
    "log_error_at_third (Suc 0) = plain_click"
    "log_error_at_third 2 = winning_click\<lparr>log_write_ok := False\<rparr>"
    "log_error_at_third 3 = winning_click"
    by (simp_all add: log_error_at_third_def)
  have r: "rapid_click_buy_button log_error_at_third first_start
             = click_loop log_error_at_third (0 # 1 # 2 # 3 # [4..<MAX_CLICKS]) 0 False
                 (first_start\<lparr>stop_clicking := False, order_success := False\<rparr>)"
    by (simp only: rapid_click_buy_button_def l)
  have "fst (rapid_click_buy_button log_error_at_third first_start) = (4, True)
      \<and> buy_clicks (snd (rapid_click_buy_button log_error_at_third first_start)) = 4"
    unfolding r
    by (simp add: t plain_click_def winning_click_def first_start_def mark_first_click_def
        mark_boundary_click_def mark_server_response_def on_success_def profiler_record_def
        profiler_reset_def Let_def)
  then show ?thesis
    by (simp add: t plain_click_def winning_click_def)
qed

text \<open>
  Claim C4, for the sequential dispatch loop (\<^verbatim>\<open>Integrated.py\<close> 619-703 and
  \<^verbatim>\<open>Integrated_Version7.py\<close>). Let the success message first be found at target
  \<open>n\<close>, with no cancellation seen up to there and a latency log that can be
  written at that moment, and let \<open>k\<close> be the number of clicks counted up to and
  including that target. Then the loop returns \<open>(k, True)\<close>, the page has received
  exactly \<open>k\<close> clicks from this invocation, both events are set, what the
  environment would do at later targets has no effect on the result or the state,
  and the invocation appends at most one line to the latency log.
\<close>

theorem rapid_click_stops_at_first_success:
  assumes "n < MAX_CLICKS"
    and "outcome (ev n) = Click_success" and "log_write_ok (ev n)"
    and "\<not> cancel_at_top (ev n)" and "\<not> cancel_after_wait (ev n)"
    and "\<forall>j<n. \<not> cancel_at_top (ev j) \<and> \<not> cancel_after_wait (ev j)
                \<and> outcome (ev j) \<noteq> Click_success"
  shows "fst (rapid_click_buy_button ev s)
           = (Suc (length (filter (\<lambda>j. counted (outcome (ev j))) [0..<n])), True)
       \<and> buy_clicks (snd (rapid_click_buy_button ev s))
           = buy_clicks s + Suc (length (filter (\<lambda>j. counted (outcome (ev j))) [0..<n]))
       \<and> (\<forall>ev'. (\<forall>j\<le>n. ev' j = ev j)
              \<longrightarrow> rapid_click_buy_button ev' s = rapid_click_buy_button ev s)
       \<and> length (latency_log (snd (rapid_click_buy_button ev s)))
           \<le> length (latency_log s) + 1"
proof -
  have "\<forall>ev'. (\<forall>j\<le>n. ev' j = ev j)
              \<longrightarrow> rapid_click_buy_button ev' s = rapid_click_buy_button ev s"
    using assms(1,2,3) by (blast intro: rapid_click_cong)
  with rapid_click_success_result [OF assms, of s] rapid_click_log [of ev s]
  show ?thesis by blast
qed

theorem rapid_click_stops_at_first_success_witness:
  "2 < MAX_CLICKS
   \<and> outcome (success_at_third 2) = Click_success \<and> log_write_ok (success_at_third 2)
   \<and> \<not> cancel_at_top (success_at_third 2) \<and> \<not> cancel_after_wait (success_at_third 2)
   \<and> \<not> cancel_at_top (success_at_third 0) \<and> \<not> cancel_after_wait (success_at_third 0)
   \<and> outcome (success_at_third 0) = Click_no_success
   \<and> \<not> cancel_at_top (success_at_third 1) \<and> \<not> cancel_after_wait (success_at_third 1)
   \<and> outcome (success_at_third 1) = Click_no_success
   \<and> fst (rapid_click_buy_button success_at_third first_start) = (3, True)
   \<and> buy_clicks (snd (rapid_click_buy_button success_at_third first_start)) = 3"
proof -
  have h: "2 < MAX_CLICKS"
    "outcome (success_at_third 2) = Click_success"
    "log_write_ok (success_at_third 2)"
    "\<not> cancel_at_top (success_at_third 2)"
    "\<not> cancel_after_wait (success_at_third 2)"
    "\<forall>j<2. \<not> cancel_at_top (success_at_third j) \<and> \<not> cancel_after_wait (success_at_third j)
                \<and> outcome (success_at_third j) \<noteq> Click_success"
    by (simp_all add: MAX_CLICKS_def success_at_third_def winning_click_def plain_click_def)
  have k: "length (filter (\<lambda>j. counted (outcome (success_at_third j))) [0..<2]) = 2"
    by (simp add: success_at_third_def plain_click_def counted_def)
  have b: "buy_clicks first_start = 0"
    by (simp add: first_start_def)
  from rapid_click_stops_at_first_success [OF h, of first_start]
  have "fst (rapid_click_buy_button success_at_third first_start)
          = (Suc (length (filter (\<lambda>j. counted (outcome (success_at_third j))) [0..<2])), True)"
    and "buy_clicks (snd (rapid_click_buy_button success_at_third first_start))
          = buy_clicks first_start
            + Suc (length (filter (\<lambda>j. counted (outcome (success_at_third j))) [0..<2]))"
    by blast+
  moreover
  have "\<not> cancel_at_top (success_at_third 0)" "\<not> cancel_after_wait (success_at_third 0)"
    "outcome (success_at_third 0) = Click_no_success"
    "\<not> cancel_at_top (success_at_third 1)" "\<not> cancel_after_wait (success_at_third 1)"
    "outcome (success_at_third 1) = Click_no_success"
    by (simp_all add: success_at_third_def plain_click_def)
  ultimately show ?thesis using h(1-5)
    by (simp add: k b)
qed

text \<open>
  The four-thread loop of \<^verbatim>\<open>Integrated.py\<close> 1560-1608 does not stop at the first
  match: with a page that shows the success message from the first click on,
  thread 1 passes the test of its \<^verbatim>\<open>while\<close> before thread 0 finds the message,
  and clicks after it. Two clicks are made and the function returns \<open>(2, True)\<close>,
  although the success predicate first matches on the first attempt.
\<close>

theorem four_threads_click_after_first_success:
  "success_after_first_click 1 \<and> \<not> success_after_first_click 0
   \<and> rapid_click_buy_button_threads success_after_first_click [0, 1, 0, 0, 1, 1, 2, 3]
       = Some (2, True)
   \<and> rapid_click_buy_button_threads success_after_first_click [0, 1, 0, 0, 1, 1, 2, 3]
       \<noteq> Some (1, True)"
  by code_simp

section \<open>The boundary scheduler\<close>

lemma success_at_third_result:
  "fst (rapid_click_buy_button success_at_third s) = (3, True)"
  "buy_clicks (snd (rapid_click_buy_button success_at_third s)) = buy_clicks s + 3"
proof -
  have h: "2 < MAX_CLICKS"
    "outcome (success_at_third 2) = Click_success"
    "log_write_ok (success_at_third 2)"
    "\<not> cancel_at_top (success_at_third 2)"
    "\<not> cancel_after_wait (success_at_third 2)"
    "\<forall>j<2. \<not> cancel_at_top (success_at_third j) \<and> \<not> cancel_after_wait (success_at_third j)
                \<and> outcome (success_at_third j) \<noteq> Click_success"
    by (simp_all add: MAX_CLICKS_def success_at_third_def winning_click_def plain_click_def)
  have k: "length (filter (\<lambda>j. counted (outcome (success_at_third j))) [0..<2]) = 2"
    by (simp add: success_at_third_def plain_click_def counted_def)
  from rapid_click_success_result [OF h, of s] k
  show "fst (rapid_click_buy_button success_at_third s) = (3, True)"
    and "buy_clicks (snd (rapid_click_buy_button success_at_third s)) = buy_clicks s + 3"
    by simp_all
qed

text \<open>
  The boundary scheduler returns without calling the dispatch loop when the bot
  is not active after the coarse wait, when the session is not valid, when the
  form preparation fails (it fails when a refresh is requested or the bot is not
  active), and when a flag is seen while it waits for the boundary.
\<close>

lemma schedule_aborts:
  assumes "\<not> active_after_wait se \<or> \<not> session_valid se \<or> \<not> prepare_order_form (form se)
           \<or> \<not> wait_for_boundary (fine_wait se)"
  shows "fst (schedule_boundary_order se fill_price_fn ev s) = None"
    and "snd (schedule_boundary_order se fill_price_fn ev s) = s
         \<or> snd (schedule_boundary_order se fill_price_fn ev s) = snd (fill_price_fn s)"
  using assms
  by (auto simp: schedule_boundary_order_def case_prod_beta Let_def)

lemma prepare_order_form_cancelled:
  "form_refresh_requested f \<or> \<not> form_active f \<or> \<not> form_session_valid f \<or> \<not> form_fields_ok f
     \<Longrightarrow> \<not> prepare_order_form f"
  by (auto simp: prepare_order_form_def)

lemma wait_for_boundary_cancelled:
  "w \<in> set ws \<Longrightarrow> wait_refresh_requested w \<or> \<not> wait_active w \<Longrightarrow> \<not> wait_for_boundary ws"
  by (induction ws) auto

text \<open>
  \<^verbatim>\<open>place_buy_order\<close> tests \<^verbatim>\<open>if price is None\<close> after the price fill and returns
  without calling the dispatch loop.
\<close>

lemma place_buy_order_no_price:
  assumes "fst (fst (if is_pre_open_hours pe then fill_price_pre_open e s
                     else fill_price_regular e s)) = None"
  shows "snd (fst (place_buy_order pe e ev form_filling_mode s)) = None"
  using assms
  by (auto simp: place_buy_order_def case_prod_beta Let_def)

text \<open>
  Claim C5 says that \<^verbatim>\<open>_schedule_boundary_order\<close> aborts without firing when a
  preparation step fails, the price fill among them. The scheduler does not test
  the price that \<^verbatim>\<open>fill_price_fn\<close> returns. On a page whose pre-close price cannot
  be read, \<^verbatim>\<open>fill_price_pre_open\<close> returns \<^verbatim>\<open>(None, False)\<close>; with every other check
  passed the scheduler still calls the dispatch loop, three clicks reach the BUY
  button and a \<^verbatim>\<open>SUCCESS\<close> row with the price \<^verbatim>\<open>None\<close> is logged. On the same
  page \<^verbatim>\<open>place_buy_order\<close> returns \<^verbatim>\<open>False\<close> and clicks nothing.
\<close>

theorem boundary_order_fires_without_price:
  "fst (fill_price_pre_open page_no_pre_close first_start) = (None, False)
   \<and> fst (schedule_boundary_order clear_run (fill_price_pre_open page_no_pre_close)
            success_at_third first_start) = Some (3, True)
   \<and> buy_clicks (snd (schedule_boundary_order clear_run (fill_price_pre_open page_no_pre_close)
            success_at_third first_start)) = 3
   \<and> order_log (snd (schedule_boundary_order clear_run (fill_price_pre_open page_no_pre_close)
            success_at_third first_start))
       = [\<lparr>row_price = None, row_status = ''SUCCESS'', row_mode = ''BOUNDARY'',
           row_click_count = 3\<rparr>]
   \<and> place_buy_order clear_place page_no_pre_close success_at_third False first_start
       = ((False, None), first_start)"
proof -
  have fill: "fill_price_pre_open page_no_pre_close first_start = ((None, False), first_start)"
    by (simp add: fill_price_pre_open_def get_pre_close_price_def page_no_pre_close_def
        first_start_def)
  have prep: "active_after_wait clear_run" "session_valid clear_run"
    "prepare_order_form (form clear_run)" "wait_for_boundary (fine_wait clear_run)"
    by (simp_all add: clear_run_def clear_form_def prepare_order_form_def)
  let ?s2 = "first_start\<lparr>latency_profiler := profiler_reset (latency_profiler first_start)\<rparr>"
  have b: "buy_clicks ?s2 = 0" "order_log ?s2 = []"
    by (simp_all add: first_start_def)
  have r: "fst (rapid_click_buy_button success_at_third ?s2) = (3, True)"
    "buy_clicks (snd (rapid_click_buy_button success_at_third ?s2)) = 3"
    "order_log (snd (rapid_click_buy_button success_at_third ?s2)) = []"
    using success_at_third_result [of ?s2] b by (simp_all add: rapid_click_fields)
  have sched: "fst (schedule_boundary_order clear_run (fill_price_pre_open page_no_pre_close)
            success_at_third first_start) = Some (3, True)"
    "buy_clicks (snd (schedule_boundary_order clear_run (fill_price_pre_open page_no_pre_close)
            success_at_third first_start)) = 3"
    "order_log (snd (schedule_boundary_order clear_run (fill_price_pre_open page_no_pre_close)
            success_at_third first_start))
       = [\<lparr>row_price = None, row_status = ''SUCCESS'', row_mode = ''BOUNDARY'',
           row_click_count = 3\<rparr>]"
    using prep r
    by (simp_all add: schedule_boundary_order_def fill case_prod_beta Let_def log_order_def
        save_state_to_local_storage_def)
  have place: "place_buy_order clear_place page_no_pre_close success_at_third False first_start
       = ((False, None), first_start)"
    by (simp add: place_buy_order_def clear_place_def clear_form_def prepare_order_form_def fill)
  from fill sched place show ?thesis by simp
qed

section \<open>The cached pre-close price\<close>

lemma decision_fields:
  "pre_close_price (snd (regular_price_decision e L s)) = pre_close_price s"
  "trading_date (snd (regular_price_decision e L s)) = trading_date s"
  by (simp_all add: regular_price_decision_def save_state_to_local_storage_def Let_def)

lemma fill_pre_open_fields:
  "trading_date (snd (fill_price_pre_open e s)) = trading_date s"
  "circuit_limit_price_for_date (snd (fill_price_pre_open e s)) = circuit_limit_price_for_date s"
  "circuit_hit_for_date (snd (fill_price_pre_open e s)) = circuit_hit_for_date s"
  "pre_close_price s = Some p \<Longrightarrow> pre_close_price (snd (fill_price_pre_open e s)) = Some p"
  by (simp_all add: fill_price_pre_open_def get_pre_close_price_def Let_def
      split: option.splits)

lemma fill_regular_pre_close:
  assumes "pre_close_price s = Some p"
  shows "pre_close_price (snd (fill_price_regular e s)) = Some p"
proof -
  let ?s1 = "reset_daily_limits_if_needed (today e) s"
  from assms have c: "get_pre_close_price e ?s1 = (Some p, ?s1)"
    by (simp add: get_pre_close_cached reset_pre_close)
  show ?thesis
  proof (cases "circuit_limit_price_for_date ?s1")
    case None
    with c assms show ?thesis
      by (simp add: fill_price_regular_def Let_def decision_fields reset_pre_close
          save_state_to_local_storage_def)
  next
    case (Some l)
    with assms show ?thesis
      by (simp add: fill_price_regular_def Let_def decision_fields reset_pre_close)
  qed
qed

text \<open>
  A quantity that the dispatch loop, the order log, the counters and the state
  file leave alone is, after the boundary scheduler or \<^verbatim>\<open>place_buy_order\<close>, what
  it was before or what the price fill made of it.
\<close>

lemma schedule_field:
  assumes "\<And>s x. f (s\<lparr>latency_profiler := x\<rparr>) = f s"
    and "\<And>s ev. f (snd (rapid_click_buy_button ev s)) = f s"
    and "\<And>s a b c d. f (log_order a b c d s) = f s"
    and "\<And>s x. f (s\<lparr>successful_orders := x\<rparr>) = f s"
    and "\<And>s x. f (s\<lparr>last_order_at_circuit := x\<rparr>) = f s"
    and "\<And>s. f (save_state_to_local_storage s) = f s"
  shows "f (snd (schedule_boundary_order se fill ev s)) = f s
         \<or> f (snd (schedule_boundary_order se fill ev s)) = f (snd (fill s))"
  by (simp add: schedule_boundary_order_def case_prod_beta Let_def assms)

lemma place_field:
  assumes "\<And>s x. f (s\<lparr>latency_profiler := x\<rparr>) = f s"
    and "\<And>s ev. f (snd (rapid_click_buy_button ev s)) = f s"
    and "\<And>s a b c d. f (log_order a b c d s) = f s"
    and "\<And>s x. f (s\<lparr>successful_orders := x\<rparr>) = f s"
    and "\<And>s x. f (s\<lparr>last_order_at_circuit := x\<rparr>) = f s"
    and "\<And>s. f (save_state_to_local_storage s) = f s"
  shows "f (snd (place_buy_order pe e ev m s)) = f s
         \<or> f (snd (place_buy_order pe e ev m s)) = f (snd (fill_price_pre_open e s))
         \<or> f (snd (place_buy_order pe e ev m s)) = f (snd (fill_price_regular e s))"
  by (simp add: place_buy_order_def case_prod_beta Let_def assms)

lemmas prim_fields =
  rapid_click_fields log_order_def save_state_to_local_storage_def

lemma do_call_pre_close:
  assumes "pre_close_price s = Some p"
  shows "pre_close_price (do_call c s) = Some p"
proof (cases c)
  case (Fill_regular e)
  with assms show ?thesis by (simp add: fill_regular_pre_close)
next
  case (Fill_pre_open e)
  with assms show ?thesis by (simp add: fill_pre_open_fields)
next
  case (Get_pre_close e)
  with assms show ?thesis by (simp add: get_pre_close_cached)
next
  case (Daily_reset d)
  with assms show ?thesis by (simp add: reset_pre_close)
next
  case (Rapid_click ev)
  with assms show ?thesis by (simp add: rapid_click_fields)
next
  case (Schedule_pre_open se e ev)
  have "pre_close_price (snd (schedule_boundary_order se (fill_price_pre_open e) ev s))
          = pre_close_price s
        \<or> pre_close_price (snd (schedule_boundary_order se (fill_price_pre_open e) ev s))
          = pre_close_price (snd (fill_price_pre_open e s))"
    by (rule schedule_field) (simp_all add: prim_fields)
  with assms Schedule_pre_open show ?thesis
    by (auto simp: fill_pre_open_fields)
next
  case (Schedule_regular se e ev)
  have "pre_close_price (snd (schedule_boundary_order se (fill_price_regular e) ev s))
          = pre_close_price s
        \<or> pre_close_price (snd (schedule_boundary_order se (fill_price_regular e) ev s))
          = pre_close_price (snd (fill_price_regular e s))"
    by (rule schedule_field) (simp_all add: prim_fields)
  with assms Schedule_regular show ?thesis
    by (auto simp: fill_regular_pre_close)
next
  case (Place_order pe e ev m)
  have "pre_close_price (snd (place_buy_order pe e ev m s)) = pre_close_price s
        \<or> pre_close_price (snd (place_buy_order pe e ev m s))
          = pre_close_price (snd (fill_price_pre_open e s))
        \<or> pre_close_price (snd (place_buy_order pe e ev m s))
          = pre_close_price (snd (fill_price_regular e s))"
    by (rule place_field) (simp_all add: prim_fields)
  with assms Place_order show ?thesis
    by (auto simp: fill_regular_pre_close fill_pre_open_fields)
qed

lemma run_pre_close:
  "pre_close_price s = Some p \<Longrightarrow> pre_close_price (run calls s) = Some p"
  unfolding run_def
  by (induction calls arbitrary: s) (simp_all add: do_call_pre_close)

lemma rollover_uses_cache:
  assumes "pre_close_price s = Some p" and "trading_date s \<noteq> Some (today e)"
  shows "circuit_limit_price_for_date (snd (fill_price_regular e s))
           = Some (floor_1dec (fmul p (fadd 1 (fdiv (circuit_limit_percentage e) 100))))"
proof -
  from assms(1) have "fst (get_pre_close_price e s) = Some p"
    by (simp add: get_pre_close_cached)
  from first_use_limit [OF disjI1 [OF assms(2)] this] show ?thesis .
qed

text \<open>
  The state after the first computation of the scenario: pre-close 100.0, limit
  110.0, the candidate 110.1 for the high 108.0 reaches the limit.
\<close>

lemma after_circuit_hit_fields:
  "pre_close_price after_circuit_hit = Some 100"
  "trading_date after_circuit_hit = Some ''2025-07-01''"
  "circuit_limit_price_for_date after_circuit_hit = Some 110"
  "circuit_hit_for_date after_circuit_hit"
  "regular_session_price_for_date after_circuit_hit = Some 110"
  "map_option f_circuit_hit_for_date (bot_state_txt after_circuit_hit) = Some True"
  "map_option f_trading_date (bot_state_txt after_circuit_hit) = Some ''2025-07-01''"
  "map_option f_last_known_price (bot_state_txt after_circuit_hit) = Some None"
  "map_option f_circuit_limit_price_for_date (bot_state_txt after_circuit_hit)
     = Some (Some 110)"
  by (simp_all add: after_circuit_hit_def fill_price_regular_def
      reset_daily_limits_if_needed_def save_state_to_local_storage_def get_pre_close_price_def
      regular_price_decision_def file_of_def str_of_def Let_def page_high_108_def
      first_start_def limit_100_at_10 candidate_108 floats_and_limit_110)

text \<open>
  Claim C10. A pre-close value that \<^verbatim>\<open>get_pre_close_price\<close> reads from the page is
  stored in \<^verbatim>\<open>self.pre_close_price\<close>. Once a value \<open>p\<close> is stored it stays for the
  rest of the process, whatever calls follow, and every later
  \<^verbatim>\<open>get_pre_close_price\<close> returns \<open>p\<close> and leaves the state as it is, whatever the
  page shows. The daily reset keeps it, so the circuit limit computed after a
  date rollover is \<^verbatim>\<open>math.floor(p * (1 + CIRCUIT_LIMIT_PERCENTAGE/100) * 10) / 10\<close>,
  from the pre-close price cached the day before.
\<close>

theorem pre_close_price_cached_for_process:
  "(pre_close_price s = None \<and> page_pre_close e = Some v
      \<longrightarrow> get_pre_close_price e s = (Some v, s\<lparr>pre_close_price := Some v\<rparr>))
   \<and> (pre_close_price s = Some p \<longrightarrow>
        pre_close_price (run calls s) = Some p
      \<and> get_pre_close_price e' (run calls s) = (Some p, run calls s)
      \<and> pre_close_price (reset_daily_limits_if_needed d s) = Some p
      \<and> (trading_date s \<noteq> Some (today e) \<longrightarrow>
           circuit_limit_price_for_date (snd (fill_price_regular e s))
             = Some (floor_1dec (fmul p (fadd 1 (fdiv (circuit_limit_percentage e) 100))))))"
proof -
  have a: "pre_close_price s = None \<and> page_pre_close e = Some v
      \<longrightarrow> get_pre_close_price e s = (Some v, s\<lparr>pre_close_price := Some v\<rparr>)"
    by (simp add: get_pre_close_price_def)
  have b: "pre_close_price s = Some p \<longrightarrow>
        pre_close_price (run calls s) = Some p
      \<and> get_pre_close_price e' (run calls s) = (Some p, run calls s)
      \<and> pre_close_price (reset_daily_limits_if_needed d s) = Some p
      \<and> (trading_date s \<noteq> Some (today e) \<longrightarrow>
           circuit_limit_price_for_date (snd (fill_price_regular e s))
             = Some (floor_1dec (fmul p (fadd 1 (fdiv (circuit_limit_percentage e) 100)))))"
    by (simp add: run_pre_close get_pre_close_cached rollover_uses_cache reset_pre_close)
  from a b show ?thesis by (rule conjI)
qed

theorem pre_close_price_cached_for_process_witness:
  "pre_close_price first_start = None \<and> page_pre_close page_high_108 = Some 100
   \<and> pre_close_price (snd (get_pre_close_price page_high_108 first_start)) = Some 100
   \<and> pre_close_price after_circuit_hit = Some 100
   \<and> trading_date after_circuit_hit \<noteq> Some (today page_next_day)
   \<and> page_pre_close page_next_day = Some 110
   \<and> fst (get_pre_close_price page_next_day
            (run [Daily_reset ''2025-07-02'', Rapid_click never_success] after_circuit_hit))
       = Some 100
   \<and> circuit_limit_price_for_date (snd (fill_price_regular page_next_day after_circuit_hit))
       = Some 110"
proof -
  have h1: "pre_close_price first_start = None" "page_pre_close page_high_108 = Some 100"
    by (simp_all add: first_start_def page_high_108_def)
  have h2: "pre_close_price after_circuit_hit = Some 100"
    by (simp add: after_circuit_hit_fields)
  have h3: "trading_date after_circuit_hit \<noteq> Some (today page_next_day)"
    by (simp add: after_circuit_hit_fields page_next_day_def)
  have pg: "page_pre_close page_next_day = Some 110"
    "circuit_limit_percentage page_next_day = 10"
    by (simp_all add: page_next_day_def)
  note fl = limit_100_at_10
  from pre_close_price_cached_for_process
         [where s = first_start and e = page_high_108 and v = 100]
       pre_close_price_cached_for_process
         [where s = after_circuit_hit and e = page_next_day and p = 100
            and e' = page_next_day
            and calls = "[Daily_reset ''2025-07-02'', Rapid_click never_success]"]
       h1 h2 h3 pg
  show ?thesis
    by (simp add: fl)
qed

section \<open>The circuit flag within a process and across a restart\<close>

lemma fill_regular_at_circuit:
  assumes "trading_date s = Some (today e)" and "circuit_limit_price_for_date s = Some L"
    and "circuit_hit_for_date s"
  shows "fill_price_regular e s =
           ((if price_input_ok e then Some L else None, True),
            save_state_to_local_storage (s\<lparr>regular_session_price_for_date := Some L\<rparr>))"
  using assms
  by (simp add: fill_price_regular_def reset_same_date decision_flag_true)

lemma fill_regular_keeps_circuit:
  assumes "trading_date s = Some (today e)" and "circuit_limit_price_for_date s = Some L"
    and "circuit_hit_for_date s"
  shows "trading_date (snd (fill_price_regular e s)) = Some (today e)"
    and "circuit_limit_price_for_date (snd (fill_price_regular e s)) = Some L"
    and "circuit_hit_for_date (snd (fill_price_regular e s))"
  using assms
  by (simp_all add: fill_regular_at_circuit save_state_to_local_storage_def)

lemma do_call_keeps_circuit:
  assumes inv: "trading_date s = Some d" "circuit_limit_price_for_date s = Some L"
      "circuit_hit_for_date s"
    and obs: "observed_date c = None \<or> observed_date c = Some d"
  shows "trading_date (do_call c s) = Some d
       \<and> circuit_limit_price_for_date (do_call c s) = Some L
       \<and> circuit_hit_for_date (do_call c s)"
proof (cases c)
  case (Fill_regular e)
  with obs have "today e = d" by simp
  with inv Fill_regular show ?thesis
    by (simp add: fill_regular_keeps_circuit)
next
  case (Fill_pre_open e)
  with inv show ?thesis by (simp add: fill_pre_open_fields)
next
  case (Get_pre_close e)
  with inv show ?thesis by (simp add: get_pre_close_fields)
next
  case (Daily_reset d')
  with obs have "d' = d" by simp
  with inv Daily_reset show ?thesis by (simp add: reset_same_date)
next
  case (Rapid_click ev)
  with inv show ?thesis by (simp add: rapid_click_fields)
next
  case (Schedule_pre_open se e ev)
  let ?r = "snd (schedule_boundary_order se (fill_price_pre_open e) ev s)"
  have "trading_date ?r = trading_date s
        \<or> trading_date ?r = trading_date (snd (fill_price_pre_open e s))"
    by (rule schedule_field) (simp_all add: prim_fields)
  moreover
  have "circuit_limit_price_for_date ?r = circuit_limit_price_for_date s
        \<or> circuit_limit_price_for_date ?r
           = circuit_limit_price_for_date (snd (fill_price_pre_open e s))"
    by (rule schedule_field) (simp_all add: prim_fields)
  moreover
  have "circuit_hit_for_date ?r = circuit_hit_for_date s
        \<or> circuit_hit_for_date ?r = circuit_hit_for_date (snd (fill_price_pre_open e s))"
    by (rule schedule_field) (simp_all add: prim_fields)
  ultimately show ?thesis using inv Schedule_pre_open
    by (simp add: fill_pre_open_fields)
next
  case (Schedule_regular se e ev)
  with obs have td: "today e = d" by simp
  let ?r = "snd (schedule_boundary_order se (fill_price_regular e) ev s)"
  have "trading_date ?r = trading_date s
        \<or> trading_date ?r = trading_date (snd (fill_price_regular e s))"
    by (rule schedule_field) (simp_all add: prim_fields)
  moreover
  have "circuit_limit_price_for_date ?r = circuit_limit_price_for_date s
        \<or> circuit_limit_price_for_date ?r
           = circuit_limit_price_for_date (snd (fill_price_regular e s))"
    by (rule schedule_field) (simp_all add: prim_fields)
  moreover
  have "circuit_hit_for_date ?r = circuit_hit_for_date s
        \<or> circuit_hit_for_date ?r = circuit_hit_for_date (snd (fill_price_regular e s))"
    by (rule schedule_field) (simp_all add: prim_fields)
  ultimately show ?thesis using inv Schedule_regular td
    by (auto simp: fill_regular_keeps_circuit)
next
  case (Place_order pe e ev m)
  with obs have td: "today e = d" by simp
  let ?r = "snd (place_buy_order pe e ev m s)"
  have "trading_date ?r = trading_date s
        \<or> trading_date ?r = trading_date (snd (fill_price_pre_open e s))
        \<or> trading_date ?r = trading_date (snd (fill_price_regular e s))"
    by (rule place_field) (simp_all add: prim_fields)
  moreover
  have "circuit_limit_price_for_date ?r = circuit_limit_price_for_date s
        \<or> circuit_limit_price_for_date ?r
           = circuit_limit_price_for_date (snd (fill_price_pre_open e s))
        \<or> circuit_limit_price_for_date ?r
           = circuit_limit_price_for_date (snd (fill_price_regular e s))"
    by (rule place_field) (simp_all add: prim_fields)
  moreover
  have "circuit_hit_for_date ?r = circuit_hit_for_date s
        \<or> circuit_hit_for_date ?r = circuit_hit_for_date (snd (fill_price_pre_open e s))
        \<or> circuit_hit_for_date ?r = circuit_hit_for_date (snd (fill_price_regular e s))"
    by (rule place_field) (simp_all add: prim_fields)
  ultimately show ?thesis using inv Place_order td
    by (auto simp: fill_regular_keeps_circuit fill_pre_open_fields)
qed

lemma run_keeps_circuit:
  assumes "trading_date s = Some d" and "circuit_limit_price_for_date s = Some L"
    and "circuit_hit_for_date s"
    and "\<forall>c \<in> set calls. observed_date c = None \<or> observed_date c = Some d"
  shows "trading_date (run calls s) = Some d
       \<and> circuit_limit_price_for_date (run calls s) = Some L
       \<and> circuit_hit_for_date (run calls s)"
  using assms unfolding run_def
proof (induction calls arbitrary: s)
  case Nil
  then show ?case by simp
next
  case (Cons c calls)
  from Cons.prems have "trading_date (do_call c s) = Some d
       \<and> circuit_limit_price_for_date (do_call c s) = Some L
       \<and> circuit_hit_for_date (do_call c s)"
    by (intro do_call_keeps_circuit) simp_all
  with Cons.IH [of "do_call c s"] Cons.prems(4) show ?case by simp
qed

text \<open>
  Within one process the flag holds: from a state with the flag set for the date
  \<open>d\<close> and the limit \<open>L\<close>, after any calls that observe no other date, the flag is
  set, and a price computation on \<open>d\<close> uses \<open>L\<close> and reports \<open>at_circuit\<close>.
\<close>

lemma circuit_hit_kept_within_process:
  assumes "trading_date s = Some d" and "circuit_limit_price_for_date s = Some L"
    and "circuit_hit_for_date s"
    and "\<forall>c \<in> set calls. observed_date c = None \<or> observed_date c = Some d"
    and "today e = d"
  shows "circuit_hit_for_date (run calls s)"
    and "fst (fill_price_regular e (run calls s))
           = (if price_input_ok e then Some L else None, True)"
    and "regular_session_price_for_date (snd (fill_price_regular e (run calls s))) = Some L"
    and "circuit_hit_for_date (snd (fill_price_regular e (run calls s)))"
proof -
  from run_keeps_circuit [OF assms(1-4)] assms(5)
  have inv: "trading_date (run calls s) = Some (today e)"
    "circuit_limit_price_for_date (run calls s) = Some L"
    "circuit_hit_for_date (run calls s)"
    by simp_all
  from inv show "circuit_hit_for_date (run calls s)" by simp
  from inv show "fst (fill_price_regular e (run calls s))
           = (if price_input_ok e then Some L else None, True)"
    and "regular_session_price_for_date (snd (fill_price_regular e (run calls s))) = Some L"
    and "circuit_hit_for_date (snd (fill_price_regular e (run calls s)))"
    by (simp_all add: fill_regular_at_circuit save_state_to_local_storage_def)
qed

lemma restore_stops_at_none:
  assumes "bot_state_txt s = Some f" and "f_last_known_price f = None"
  shows "restore_state_from_local_storage s
           = s\<lparr>last_transaction_id := Some (f_last_transaction_id f)\<rparr>"
  using assms by (simp add: restore_state_from_local_storage_def)

text \<open>
  Claim C2 says that once the circuit flag is true for a trading date it does not
  revert before the date changes, and that every later price computation on that
  date uses the circuit limit and reports \<open>at_circuit\<close>. The state file written
  when the flag is set holds \<^verbatim>\<open>circuit_hit_for_date:True\<close>, and on its second line
  \<^verbatim>\<open>last_known_price:None\<close>, since nothing in this script assigns
  \<^verbatim>\<open>last_known_price\<close>. A process started on the same date stops restoring at that
  line: its trading date is \<^verbatim>\<open>None\<close> and its flag false. Its first price
  computation, with high 95.0, resets the day, uses 96.9 below the limit 110.0,
  reports \<open>at_circuit\<close> false and writes \<^verbatim>\<open>circuit_hit_for_date:False\<close>. Without
  the restart the same computation uses 110.0 and reports \<open>at_circuit\<close> true.
\<close>

theorem circuit_flag_lost_on_restart:
  "circuit_hit_for_date after_circuit_hit
   \<and> trading_date after_circuit_hit = Some (today page_high_95)
   \<and> circuit_limit_price_for_date after_circuit_hit = Some 110
   \<and> map_option f_circuit_hit_for_date (bot_state_txt after_circuit_hit) = Some True
   \<and> map_option f_trading_date (bot_state_txt after_circuit_hit) = Some (today page_high_95)
   \<and> map_option f_last_known_price (bot_state_txt after_circuit_hit) = Some None
   \<and> fst (fill_price_regular page_high_95 after_circuit_hit) = (Some 110, True)
   \<and> trading_date (restart after_circuit_hit) = None
   \<and> \<not> circuit_hit_for_date (restart after_circuit_hit)
   \<and> fst (fill_price_regular page_high_95 (restart after_circuit_hit))
       = (Some (double (969 / 10)), False)
   \<and> \<not> circuit_hit_for_date (snd (fill_price_regular page_high_95 (restart after_circuit_hit)))
   \<and> map_option f_circuit_hit_for_date
        (bot_state_txt (snd (fill_price_regular page_high_95 (restart after_circuit_hit))))
       = Some False"
proof -
  have td: "today page_high_95 = ''2025-07-01''" "page_high page_high_95 = Some 95"
    "price_input_ok page_high_95" "page_pre_close page_high_95 = Some 100"
    "circuit_limit_percentage page_high_95 = 10"
    by (simp_all add: page_high_95_def)
  note a = after_circuit_hit_fields
  have same: "fst (fill_price_regular page_high_95 after_circuit_hit) = (Some 110, True)"
    using fill_regular_at_circuit [of after_circuit_hit page_high_95 110]
    by (simp add: a td)
  obtain f where f: "bot_state_txt after_circuit_hit = Some f"
    using a(6) by (cases "bot_state_txt after_circuit_hit") simp_all
  with a(8) have "f_last_known_price f = None" by simp
  with f have "restore_state_from_local_storage
          (first_start\<lparr>bot_state_txt := bot_state_txt after_circuit_hit,
                       latency_log := latency_log after_circuit_hit,
                       order_log := order_log after_circuit_hit,
                       buy_clicks := buy_clicks after_circuit_hit\<rparr>)
        = first_start\<lparr>bot_state_txt := bot_state_txt after_circuit_hit,
                       latency_log := latency_log after_circuit_hit,
                       order_log := order_log after_circuit_hit,
                       buy_clicks := buy_clicks after_circuit_hit,
                       last_transaction_id := Some (f_last_transaction_id f)\<rparr>"
    by (simp add: restore_stops_at_none)
  then have r: "restart after_circuit_hit
        = first_start\<lparr>bot_state_txt := bot_state_txt after_circuit_hit,
                       latency_log := latency_log after_circuit_hit,
                       order_log := order_log after_circuit_hit,
                       buy_clicks := buy_clicks after_circuit_hit,
                       last_transaction_id := Some (f_last_transaction_id f)\<rparr>"
    by (simp add: restart_def first_start_def)
  have lost: "trading_date (restart after_circuit_hit) = None"
    "\<not> circuit_hit_for_date (restart after_circuit_hit)"
    by (simp_all add: r first_start_def)
  have again: "fst (fill_price_regular page_high_95 (restart after_circuit_hit))
                 = (Some (double (969 / 10)), False)"
    "\<not> circuit_hit_for_date (snd (fill_price_regular page_high_95 (restart after_circuit_hit)))"
    "map_option f_circuit_hit_for_date
        (bot_state_txt (snd (fill_price_regular page_high_95 (restart after_circuit_hit))))
       = Some False"
    by (simp_all add: r fill_price_regular_def reset_daily_limits_if_needed_def
        save_state_to_local_storage_def get_pre_close_price_def regular_price_decision_def
        file_of_def str_of_def Let_def td first_start_def limit_100_at_10 candidate_95
        floats_and_limit_110)
  from a td(1) same lost again show ?thesis
    by (intro conjI) simp_all
qed

section \<open>Cancellation of the waits\<close>

text \<open>
  The time at which \<^verbatim>\<open>_wait_until\<close> returns: at once when the flag is already
  set, otherwise at the first test of the flags at or after \<open>T\<close>, or at the
  target if that comes first. The tests are made every tenth of a second from
  the entry on.
\<close>

lemma wait_until_value:
  "now \<le> target_dt \<Longrightarrow>
   wait_until T target_dt now =
     (if T \<le> now then now else min target_dt (now + of_int \<lceil>(T - now) * 10\<rceil> / 10))"
proof (induction T target_dt now rule: wait_until.induct)
  case (1 T target_dt now)
  show ?case
  proof (cases "T \<le> now")
    case True
    then show ?thesis by (simp add: wait_until.simps [of T target_dt now])
  next
    case False
    then have c1: "1 \<le> \<lceil>(T - now) * 10\<rceil>" by simp
    then have "(1::rat) \<le> of_int \<lceil>(T - now) * 10\<rceil>" by linarith
    then have far: "now + 1 / 10 \<le> now + of_int \<lceil>(T - now) * 10\<rceil> / 10" by simp
    show ?thesis
    proof (cases "target_dt - now \<le> 1 / 10")
      case True
      have "wait_until T target_dt target_dt = target_dt"
        by (simp add: wait_until.simps [of T target_dt target_dt])
      moreover from True have "now + min (1 / 10) (target_dt - now) = target_dt"
        by simp
      ultimately have "wait_until T target_dt now = target_dt"
        using False 1(2) by (simp add: wait_until.simps [of T target_dt now] Let_def)
      moreover from True far have "target_dt \<le> now + of_int \<lceil>(T - now) * 10\<rceil> / 10"
        by linarith
      ultimately show ?thesis using False by (simp add: min_def)
    next
      case far_target: False
      then have lt: "now < target_dt" and le': "now + 1 / 10 \<le> target_dt" by simp_all
      have i: "min (1 / 10) (target_dt - now) = 1 / 10" using far_target by (simp add: min_def)
      from lt False have "\<not> (T \<le> now \<or> target_dt - now \<le> 0)" by simp
      from 1(1) [OF lt refl refl this] le'
      have IH: "wait_until T target_dt (now + 1 / 10) =
                  (if T \<le> now + 1 / 10 then now + 1 / 10
                   else min target_dt (now + 1 / 10
                          + of_int \<lceil>(T - (now + 1 / 10)) * 10\<rceil> / 10))"
        by (simp add: i)
      from lt False have step: "wait_until T target_dt now = wait_until T target_dt (now + 1 / 10)"
        by (simp add: wait_until.simps [of T target_dt now] Let_def i)
      have "(T - (now + 1 / 10)) * 10 = (T - now) * 10 - 1" by (simp add: algebra_simps)
      then have c': "\<lceil>(T - (now + 1 / 10)) * 10\<rceil> = \<lceil>(T - now) * 10\<rceil> - 1"
        by (simp only: ceiling_diff_one)
      show ?thesis
      proof (cases "T \<le> now + 1 / 10")
        case True
        then have "(T - now) * 10 \<le> 1" by simp
        then have "\<lceil>(T - now) * 10\<rceil> \<le> 1" by (simp only: ceiling_le_one)
        with c1 have ceq: "\<lceil>(T - now) * 10\<rceil> = 1" by (rule order_antisym [rotated])
        have r: "wait_until T target_dt now = now + 1 / 10"
          using True by (simp add: step IH)
        have m: "min target_dt (now + of_int \<lceil>(T - now) * 10\<rceil> / 10) = now + 1 / 10"
          using le' by (simp only: ceq; simp add: min_def)
        from False r m show ?thesis by (simp only: if_False)
      next
        case F2: False
        have "now + 1 / 10 + of_int \<lceil>(T - (now + 1 / 10)) * 10\<rceil> / 10
                = now + of_int \<lceil>(T - now) * 10\<rceil> / 10"
          by (simp only: c'; simp add: diff_divide_distrib)
        with F2 have r: "wait_until T target_dt now
                = min target_dt (now + of_int \<lceil>(T - now) * 10\<rceil> / 10)"
          by (simp only: step IH if_False)
        from False r show ?thesis by (simp only: if_False)
      qed
    qed
  qed
qed

lemma interruptible_sleep_value:
  "interruptible_sleep T total_seconds slept now =
     now + of_int (max 0 (min \<lceil>(total_seconds - slept) * 10\<rceil> \<lceil>(T - now) * 10\<rceil>)) / 10"
proof (induction T total_seconds slept now rule: interruptible_sleep.induct)
  case (1 T total_seconds slept now)
  define a where "a = \<lceil>(total_seconds - slept) * 10\<rceil>"
  define b where "b = \<lceil>(T - now) * 10\<rceil>"
  have "interruptible_sleep T total_seconds slept now = now + of_int (max 0 (min a b)) / 10"
  proof (cases "slept < total_seconds \<and> \<not> T \<le> now")
    case False
    then have "a \<le> 0 \<or> b \<le> 0" by (auto simp: a_def b_def)
    then have "max 0 (min a b) = 0" by auto
    moreover from False have "interruptible_sleep T total_seconds slept now = now"
      by (auto simp: interruptible_sleep.simps [of T total_seconds slept now])
    ultimately show ?thesis by simp
  next
    case True
    then have lt: "slept < total_seconds" and nc: "\<not> T \<le> now" by simp_all
    then have a1: "1 \<le> a" and b1: "1 \<le> b" by (simp_all add: a_def b_def)
    have "(total_seconds - (slept + 1 / 10)) * 10 = (total_seconds - slept) * 10 - 1"
      by (simp add: algebra_simps)
    then have a': "\<lceil>(total_seconds - (slept + 1 / 10)) * 10\<rceil> = a - 1"
      by (simp only: ceiling_diff_one a_def)
    have "(T - (now + 1 / 10)) * 10 = (T - now) * 10 - 1" by (simp add: algebra_simps)
    then have b': "\<lceil>(T - (now + 1 / 10)) * 10\<rceil> = b - 1"
      by (simp only: ceiling_diff_one b_def)
    from lt nc have "interruptible_sleep T total_seconds slept now
        = interruptible_sleep T total_seconds (slept + 1 / 10) (now + 1 / 10)"
      by (simp add: interruptible_sleep.simps [of T total_seconds slept now])
    also have "\<dots> = now + 1 / 10 + of_int (max 0 (min (a - 1) (b - 1))) / 10"
      by (simp only: 1 [OF lt nc] a' b')
    also from a1 b1 have "max 0 (min (a - 1) (b - 1)) = min a b - 1" by auto
    also have "now + 1 / 10 + of_int (min a b - 1) / 10 = now + of_int (min a b) / 10"
      by (simp add: diff_divide_distrib)
    also from a1 b1 have "min a b = max 0 (min a b)" by auto
    finally show ?thesis .
  qed
  then show ?case by (simp only: a_def b_def)
qed

lemma wait_until_cancel:
  assumes "now \<le> T" and "T < target_dt"
  shows "T \<le> wait_until T target_dt now" and "wait_until T target_dt now < T + 1 / 10"
    and "wait_until T target_dt now \<le> target_dt"
proof -
  from assms have le: "now \<le> target_dt" by simp
  define c where "c = \<lceil>(T - now) * 10\<rceil>"
  from ceiling_correct [of "(T - now) * 10"]
  have up: "(T - now) * 10 \<le> of_int c" and lo: "of_int c < (T - now) * 10 + 1"
    unfolding c_def by linarith+
  from up have u: "T \<le> now + of_int c / 10" by (simp add: field_simps)
  from lo have l: "now + of_int c / 10 < T + 1 / 10" by (simp add: field_simps)
  have v: "wait_until T target_dt now =
             (if T \<le> now then now else min target_dt (now + of_int c / 10))"
    unfolding c_def by (rule wait_until_value [OF le])
  from assms u show "T \<le> wait_until T target_dt now"
    by (simp only: v) (auto simp: min_def)
  from assms l show "wait_until T target_dt now < T + 1 / 10"
    by (simp only: v) (auto simp: min_def)
  from assms show "wait_until T target_dt now \<le> target_dt"
    by (simp only: v) (auto simp: min_def)
qed

lemma wait_until_complete:
  assumes "now \<le> target_dt" and "target_dt \<le> T"
  shows "wait_until T target_dt now = target_dt"
proof -
  define c where "c = \<lceil>(T - now) * 10\<rceil>"
  from ceiling_correct [of "(T - now) * 10"]
  have up: "(T - now) * 10 \<le> of_int c"
    unfolding c_def by linarith
  then have u: "T \<le> now + of_int c / 10" by (simp add: field_simps)
  have v: "wait_until T target_dt now =
             (if T \<le> now then now else min target_dt (now + of_int c / 10))"
    unfolding c_def by (rule wait_until_value [OF assms(1)])
  from assms u show ?thesis
    by (simp only: v) (auto simp: min_def)
qed

lemma interruptible_sleep_cancel:
  assumes "now \<le> T" and "T < now + total_seconds"
  shows "T \<le> interruptible_sleep T total_seconds 0 now"
    and "interruptible_sleep T total_seconds 0 now < T + 1 / 10"
proof -
  define a where "a = \<lceil>(total_seconds - 0) * 10\<rceil>"
  define b where "b = \<lceil>(T - now) * 10\<rceil>"
  have v: "interruptible_sleep T total_seconds 0 now = now + of_int (max 0 (min a b)) / 10"
    by (simp only: interruptible_sleep_value a_def b_def)
  from assms have "(T - now) * 10 \<le> (total_seconds - 0) * 10" by simp
  then have "b \<le> a" unfolding a_def b_def by (rule ceiling_mono)
  moreover from assms have "0 \<le> b" by (simp add: b_def)
  ultimately have m: "max 0 (min a b) = b" by auto
  from ceiling_correct [of "(T - now) * 10"]
  have up: "(T - now) * 10 \<le> of_int b" and lo: "of_int b < (T - now) * 10 + 1"
    unfolding b_def by linarith+
  from up show "T \<le> interruptible_sleep T total_seconds 0 now"
    by (simp add: v m field_simps)
  from lo show "interruptible_sleep T total_seconds 0 now < T + 1 / 10"
    by (simp add: v m field_simps)
qed

lemma interruptible_sleep_complete:
  assumes "0 \<le> total_seconds" and "now + of_int \<lceil>total_seconds * 10\<rceil> / 10 \<le> T"
  shows "interruptible_sleep T total_seconds 0 now = now + of_int \<lceil>total_seconds * 10\<rceil> / 10"
proof -
  define a where "a = \<lceil>(total_seconds - 0) * 10\<rceil>"
  define b where "b = \<lceil>(T - now) * 10\<rceil>"
  have v: "interruptible_sleep T total_seconds 0 now = now + of_int (max 0 (min a b)) / 10"
    by (simp only: interruptible_sleep_value a_def b_def)
  have a: "a = \<lceil>total_seconds * 10\<rceil>" by (simp add: a_def)
  from assms(2) have "of_int a \<le> (T - now) * 10" by (simp add: a field_simps)
  then have "a \<le> b" unfolding b_def by (simp only: le_ceiling_iff)
  moreover from assms(1) have "0 \<le> a" by (simp add: a)
  ultimately have m: "max 0 (min a b) = a" by auto
  show ?thesis by (simp only: v m; simp only: a)
qed

text \<open>The same for the interval of \<^verbatim>\<open>Integrated_Version7.py\<close>.\<close>

lemma wait_until_v7_value:
  "now \<le> target_dt \<Longrightarrow>
   wait_until_v7 T target_dt now =
     (if T \<le> now then now else min target_dt (now + of_int \<lceil>(T - now) * 5\<rceil> / 5))"
proof (induction T target_dt now rule: wait_until_v7.induct)
  case (1 T target_dt now)
  show ?case
  proof (cases "T \<le> now")
    case True
    then show ?thesis by (simp add: wait_until_v7.simps [of T target_dt now])
  next
    case False
    then have c1: "1 \<le> \<lceil>(T - now) * 5\<rceil>" by simp
    then have "(1::rat) \<le> of_int \<lceil>(T - now) * 5\<rceil>" by linarith
    then have far: "now + 1 / 5 \<le> now + of_int \<lceil>(T - now) * 5\<rceil> / 5" by simp
    show ?thesis
    proof (cases "target_dt - now \<le> 1 / 5")
      case True
      have "wait_until_v7 T target_dt target_dt = target_dt"
        by (simp add: wait_until_v7.simps [of T target_dt target_dt])
      moreover from True have "now + min (1 / 5) (target_dt - now) = target_dt"
        by simp
      ultimately have "wait_until_v7 T target_dt now = target_dt"
        using False 1(2) by (simp add: wait_until_v7.simps [of T target_dt now] Let_def)
      moreover from True far have "target_dt \<le> now + of_int \<lceil>(T - now) * 5\<rceil> / 5"
        by linarith
      ultimately show ?thesis using False by (simp add: min_def)
    next
      case far_target: False
      then have lt: "now < target_dt" and le': "now + 1 / 5 \<le> target_dt" by simp_all
      have i: "min (1 / 5) (target_dt - now) = 1 / 5" using far_target by (simp add: min_def)
      from lt False have "\<not> (T \<le> now \<or> target_dt - now \<le> 0)" by simp
      from 1(1) [OF lt refl refl this] le'
      have IH: "wait_until_v7 T target_dt (now + 1 / 5) =
                  (if T \<le> now + 1 / 5 then now + 1 / 5
                   else min target_dt (now + 1 / 5
                          + of_int \<lceil>(T - (now + 1 / 5)) * 5\<rceil> / 5))"
        by (simp add: i)
      from lt False have step: "wait_until_v7 T target_dt now = wait_until_v7 T target_dt (now + 1 / 5)"
        by (simp add: wait_until_v7.simps [of T target_dt now] Let_def i)
      have "(T - (now + 1 / 5)) * 5 = (T - now) * 5 - 1" by (simp add: algebra_simps)
      then have c': "\<lceil>(T - (now + 1 / 5)) * 5\<rceil> = \<lceil>(T - now) * 5\<rceil> - 1"
        by (simp only: ceiling_diff_one)
      show ?thesis
      proof (cases "T \<le> now + 1 / 5")
        case True
        then have "(T - now) * 5 \<le> 1" by simp
        then have "\<lceil>(T - now) * 5\<rceil> \<le> 1" by (simp only: ceiling_le_one)
        with c1 have ceq: "\<lceil>(T - now) * 5\<rceil> = 1" by (rule order_antisym [rotated])
        have r: "wait_until_v7 T target_dt now = now + 1 / 5"
          using True by (simp add: step IH)
        have m: "min target_dt (now + of_int \<lceil>(T - now) * 5\<rceil> / 5) = now + 1 / 5"
          using le' by (simp only: ceq; simp add: min_def)
        from False r m show ?thesis by (simp only: if_False)
      next
        case F2: False
        have "now + 1 / 5 + of_int \<lceil>(T - (now + 1 / 5)) * 5\<rceil> / 5
                = now + of_int \<lceil>(T - now) * 5\<rceil> / 5"
          by (simp only: c'; simp add: diff_divide_distrib)
        with F2 have r: "wait_until_v7 T target_dt now
                = min target_dt (now + of_int \<lceil>(T - now) * 5\<rceil> / 5)"
          by (simp only: step IH if_False)
        from False r show ?thesis by (simp only: if_False)
      qed
    qed
  qed
qed

lemma interruptible_sleep_v7_value:
  "interruptible_sleep_v7 T total_seconds slept now =
     now + of_int (max 0 (min \<lceil>(total_seconds - slept) * 5\<rceil> \<lceil>(T - now) * 5\<rceil>)) / 5"
proof (induction T total_seconds slept now rule: interruptible_sleep_v7.induct)
  case (1 T total_seconds slept now)
  define a where "a = \<lceil>(total_seconds - slept) * 5\<rceil>"
  define b where "b = \<lceil>(T - now) * 5\<rceil>"
  have "interruptible_sleep_v7 T total_seconds slept now = now + of_int (max 0 (min a b)) / 5"
  proof (cases "slept < total_seconds \<and> \<not> T \<le> now")
    case False
    then have "a \<le> 0 \<or> b \<le> 0" by (auto simp: a_def b_def)
    then have "max 0 (min a b) = 0" by auto
    moreover from False have "interruptible_sleep_v7 T total_seconds slept now = now"
      by (auto simp: interruptible_sleep_v7.simps [of T total_seconds slept now])
    ultimately show ?thesis by simp
  next
    case True
    then have lt: "slept < total_seconds" and nc: "\<not> T \<le> now" by simp_all
    then have a1: "1 \<le> a" and b1: "1 \<le> b" by (simp_all add: a_def b_def)
    have "(total_seconds - (slept + 1 / 5)) * 5 = (total_seconds - slept) * 5 - 1"
      by (simp add: algebra_simps)
    then have a': "\<lceil>(total_seconds - (slept + 1 / 5)) * 5\<rceil> = a - 1"
      by (simp only: ceiling_diff_one a_def)
    have "(T - (now + 1 / 5)) * 5 = (T - now) * 5 - 1" by (simp add: algebra_simps)
    then have b': "\<lceil>(T - (now + 1 / 5)) * 5\<rceil> = b - 1"
      by (simp only: ceiling_diff_one b_def)
    from lt nc have "interruptible_sleep_v7 T total_seconds slept now
        = interruptible_sleep_v7 T total_seconds (slept + 1 / 5) (now + 1 / 5)"
      by (simp add: interruptible_sleep_v7.simps [of T total_seconds slept now])
    also have "\<dots> = now + 1 / 5 + of_int (max 0 (min (a - 1) (b - 1))) / 5"
      by (simp only: 1 [OF lt nc] a' b')
    also from a1 b1 have "max 0 (min (a - 1) (b - 1)) = min a b - 1" by auto
    also have "now + 1 / 5 + of_int (min a b - 1) / 5 = now + of_int (min a b) / 5"
      by (simp add: diff_divide_distrib)
    also from a1 b1 have "min a b = max 0 (min a b)" by auto
    finally show ?thesis .
  qed
  then show ?case by (simp only: a_def b_def)
qed

lemma wait_until_v7_cancel:
  assumes "now \<le> T" and "T < target_dt"
  shows "T \<le> wait_until_v7 T target_dt now" and "wait_until_v7 T target_dt now < T + 1 / 5"
    and "wait_until_v7 T target_dt now \<le> target_dt"
proof -
  from assms have le: "now \<le> target_dt" by simp
  define c where "c = \<lceil>(T - now) * 5\<rceil>"
  from ceiling_correct [of "(T - now) * 5"]
  have up: "(T - now) * 5 \<le> of_int c" and lo: "of_int c < (T - now) * 5 + 1"
    unfolding c_def by linarith+
  from up have u: "T \<le> now + of_int c / 5" by (simp add: field_simps)
  from lo have l: "now + of_int c / 5 < T + 1 / 5" by (simp add: field_simps)
  have v: "wait_until_v7 T target_dt now =
             (if T \<le> now then now else min target_dt (now + of_int c / 5))"
    unfolding c_def by (rule wait_until_v7_value [OF le])
  from assms u show "T \<le> wait_until_v7 T target_dt now"
    by (simp only: v) (auto simp: min_def)
  from assms l show "wait_until_v7 T target_dt now < T + 1 / 5"
    by (simp only: v) (auto simp: min_def)
  from assms show "wait_until_v7 T target_dt now \<le> target_dt"
    by (simp only: v) (auto simp: min_def)
qed

lemma wait_until_v7_complete:
  assumes "now \<le> target_dt" and "target_dt \<le> T"
  shows "wait_until_v7 T target_dt now = target_dt"
proof -
  define c where "c = \<lceil>(T - now) * 5\<rceil>"
  from ceiling_correct [of "(T - now) * 5"]
  have up: "(T - now) * 5 \<le> of_int c"
    unfolding c_def by linarith
  then have u: "T \<le> now + of_int c / 5" by (simp add: field_simps)
  have v: "wait_until_v7 T target_dt now =
             (if T \<le> now then now else min target_dt (now + of_int c / 5))"
    unfolding c_def by (rule wait_until_v7_value [OF assms(1)])
  from assms u show ?thesis
    by (simp only: v) (auto simp: min_def)
qed

lemma interruptible_sleep_v7_cancel:
  assumes "now \<le> T" and "T < now + total_seconds"
  shows "T \<le> interruptible_sleep_v7 T total_seconds 0 now"
    and "interruptible_sleep_v7 T total_seconds 0 now < T + 1 / 5"
proof -
  define a where "a = \<lceil>(total_seconds - 0) * 5\<rceil>"
  define b where "b = \<lceil>(T - now) * 5\<rceil>"
  have v: "interruptible_sleep_v7 T total_seconds 0 now = now + of_int (max 0 (min a b)) / 5"
    by (simp only: interruptible_sleep_v7_value a_def b_def)
  from assms have "(T - now) * 5 \<le> (total_seconds - 0) * 5" by simp
  then have "b \<le> a" unfolding a_def b_def by (rule ceiling_mono)
  moreover from assms have "0 \<le> b" by (simp add: b_def)
  ultimately have m: "max 0 (min a b) = b" by auto
  from ceiling_correct [of "(T - now) * 5"]
  have up: "(T - now) * 5 \<le> of_int b" and lo: "of_int b < (T - now) * 5 + 1"
    unfolding b_def by linarith+
  from up show "T \<le> interruptible_sleep_v7 T total_seconds 0 now"
    by (simp add: v m field_simps)
  from lo show "interruptible_sleep_v7 T total_seconds 0 now < T + 1 / 5"
    by (simp add: v m field_simps)
qed

lemma interruptible_sleep_v7_complete:
  assumes "0 \<le> total_seconds" and "now + of_int \<lceil>total_seconds * 5\<rceil> / 5 \<le> T"
  shows "interruptible_sleep_v7 T total_seconds 0 now = now + of_int \<lceil>total_seconds * 5\<rceil> / 5"
proof -
  define a where "a = \<lceil>(total_seconds - 0) * 5\<rceil>"
  define b where "b = \<lceil>(T - now) * 5\<rceil>"
  have v: "interruptible_sleep_v7 T total_seconds 0 now = now + of_int (max 0 (min a b)) / 5"
    by (simp only: interruptible_sleep_v7_value a_def b_def)
  have a: "a = \<lceil>total_seconds * 5\<rceil>" by (simp add: a_def)
  from assms(2) have "of_int a \<le> (T - now) * 5" by (simp add: a field_simps)
  then have "a \<le> b" unfolding b_def by (simp only: le_ceiling_iff)
  moreover from assms(1) have "0 \<le> a" by (simp add: a)
  ultimately have m: "max 0 (min a b) = a" by auto
  show ?thesis by (simp only: v m; simp only: a)
qed

text \<open>
  Claim C6, as far as it holds. Let the cancellation flag be set at the time \<open>T\<close>,
  not before the wait is entered. If \<open>T\<close> is before the target instant,
  \<^verbatim>\<open>_wait_until\<close> returns at or after \<open>T\<close>, less than one polling interval after
  \<open>T\<close>, and not after the target; if \<open>T\<close> is before the end of the requested
  duration, \<^verbatim>\<open>interruptible_sleep\<close> returns at or after \<open>T\<close> and less than one
  polling interval after \<open>T\<close>. The polling interval is 0.1 seconds in
  \<^verbatim>\<open>Integrated.py\<close> and 0.2 seconds in \<^verbatim>\<open>Integrated_Version7.py\<close>. A wait that is
  not cancelled before its target returns at the target. Time is the logical
  clock of the model: a sleep takes exactly its argument and the tests take no
  time.
\<close>

theorem cancellation_within_one_polling_interval:
  assumes "now \<le> T"
  shows "(T < target_dt \<longrightarrow>
            T \<le> wait_until T target_dt now
          \<and> wait_until T target_dt now < T + 1 / 10
          \<and> wait_until T target_dt now \<le> target_dt
          \<and> T \<le> wait_until_v7 T target_dt now
          \<and> wait_until_v7 T target_dt now < T + 1 / 5
          \<and> wait_until_v7 T target_dt now \<le> target_dt)
       \<and> (T < now + total_seconds \<longrightarrow>
            T \<le> interruptible_sleep T total_seconds 0 now
          \<and> interruptible_sleep T total_seconds 0 now < T + 1 / 10
          \<and> T \<le> interruptible_sleep_v7 T total_seconds 0 now
          \<and> interruptible_sleep_v7 T total_seconds 0 now < T + 1 / 5)
       \<and> (now \<le> target_dt \<and> target_dt \<le> T \<longrightarrow>
            wait_until T target_dt now = target_dt
          \<and> wait_until_v7 T target_dt now = target_dt)"
proof -
  have a: "T < target_dt \<longrightarrow>
            T \<le> wait_until T target_dt now
          \<and> wait_until T target_dt now < T + 1 / 10
          \<and> wait_until T target_dt now \<le> target_dt
          \<and> T \<le> wait_until_v7 T target_dt now
          \<and> wait_until_v7 T target_dt now < T + 1 / 5
          \<and> wait_until_v7 T target_dt now \<le> target_dt"
    using wait_until_cancel [OF assms, of target_dt] wait_until_v7_cancel [OF assms, of target_dt]
    by blast
  have b: "T < now + total_seconds \<longrightarrow>
            T \<le> interruptible_sleep T total_seconds 0 now
          \<and> interruptible_sleep T total_seconds 0 now < T + 1 / 10
          \<and> T \<le> interruptible_sleep_v7 T total_seconds 0 now
          \<and> interruptible_sleep_v7 T total_seconds 0 now < T + 1 / 5"
    using interruptible_sleep_cancel [OF assms, of total_seconds]
      interruptible_sleep_v7_cancel [OF assms, of total_seconds]
    by blast
  have c: "now \<le> target_dt \<and> target_dt \<le> T \<longrightarrow>
            wait_until T target_dt now = target_dt
          \<and> wait_until_v7 T target_dt now = target_dt"
    using wait_until_complete [of now target_dt T] wait_until_v7_complete [of now target_dt T]
    by blast
  from a b c show ?thesis by (intro conjI)
qed

theorem cancellation_within_one_polling_interval_witness:
  "(0::rat) \<le> 1 / 4 \<and> (1 / 4 :: rat) < 1 \<and> (1 / 4 :: rat) < 0 + 2
   \<and> wait_until (1 / 4) 1 0 = 3 / 10 \<and> (1 / 4 :: rat) \<le> 3 / 10
   \<and> (3 / 10 :: rat) < 1 / 4 + 1 / 10
   \<and> interruptible_sleep (1 / 4) 2 0 0 = 3 / 10
   \<and> wait_until_v7 (1 / 4) 1 0 = 2 / 5 \<and> (2 / 5 :: rat) < 1 / 4 + 1 / 5
   \<and> interruptible_sleep_v7 (1 / 4) 2 0 0 = 2 / 5
   \<and> (0::rat) \<le> 1 / 8 \<and> (1 / 8 :: rat) \<le> 1 / 4
   \<and> wait_until (1 / 4) (1 / 8) 0 = 1 / 8
   \<and> wait_until_v7 (1 / 4) (1 / 8) 0 = 1 / 8"
proof -
  have v: "wait_until (1 / 4) 1 0 = 3 / 10" "interruptible_sleep (1 / 4) 2 0 0 = 3 / 10"
    "wait_until_v7 (1 / 4) 1 0 = 2 / 5" "interruptible_sleep_v7 (1 / 4) 2 0 0 = 2 / 5"
    by code_simp+
  have h: "(0::rat) \<le> 1 / 4" by simp
  from cancellation_within_one_polling_interval [OF h, of "1 / 8" 2] v
  show ?thesis by simp
qed

text \<open>
  Against the second half of the claim: the wait for a manual captcha entry
  tests no flag. With the default \<^verbatim>\<open>CAPTCHA_FILL_WAIT\<close> of 30 seconds and a
  dashboard that never appears, a wait entered at the time 0 returns \<^verbatim>\<open>False\<close> at
  the time 30, after ten probes of 2 seconds and ten sleeps of 1 second, whenever
  the flag is set; for a flag set at the time 0 that is later than 0.2 seconds
  after it.
\<close>

theorem captcha_wait_ignores_cancellation:
  "captcha_wait 30 None 0 0 = (False, 30)
   \<and> captcha_wait 30 None 0 3 = (False, 30)
   \<and> (0 + 1 / 5 :: rat) < snd (captcha_wait 30 None 0 0)"
  by code_simp

end
